theory Spec2Isabelle
  imports Complex_Main
begin

section \<open>Numbers\<close>

text \<open>
  The embedding follows \<^verbatim>\<open>js/modules/accessibility/components/ZoomComponent.js\<close>.

  A JavaScript number is an IEEE-754 binary64 value, and every arithmetic operation returns
  the exact result rounded to the nearest binary64 value, ties to even. The finite numbers
  are modelled as the reals they denote, and an operation as the exact operation followed by
  a rounding function, which is a parameter of \<open>panStepWith\<close> below: \<open>round64\<close> gives the
  arithmetic of the code and \<open>exact\<close> (no rounding) the arithmetic of the reals, in which the
  specification states its properties. Overflow to an infinity and not-a-number operands are
  outside the model; the sign of zero is not kept.
\<close>

definition exact :: "real \<Rightarrow> real" where
  "exact x = x"

definition pow2 :: "int \<Rightarrow> real" where
  "pow2 k = (if 0 \<le> k then 2 ^ nat k else 1 / 2 ^ nat (- k))"

text \<open>The nearest integer, a tie going to the even neighbour.\<close>

definition roundHalfEven :: "real \<Rightarrow> int" where
  "roundHalfEven x =
     (let f = \<lfloor>x\<rfloor>
      in if x - of_int f < 1 / 2 then f
         else if x - of_int f > 1 / 2 then f + 1
         else if even f then f else f + 1)"

text \<open>
  Rounding to binary64: a number of magnitude in \<open>[2^e, 2^(e+1))\<close> is rounded to a multiple of
  \<open>2^(e-52)\<close> (53 significant bits); below \<open>2^-1022\<close> the spacing stays \<open>2^-1074\<close>
  (subnormal numbers).
\<close>

definition round64 :: "real \<Rightarrow> real" where
  "round64 x =
     (if x = 0 then 0
      else let e = max \<lfloor>log 2 \<bar>x\<bar>\<rfloor> (- 1022);
               ulp = pow2 (e - 52)
           in of_int (roundHalfEven (x / ulp)) * ulp)"

text \<open>The binary64 numbers: the reals that rounding leaves unchanged.\<close>

definition isBinary64 :: "real \<Rightarrow> bool" where
  "isBinary64 x \<longleftrightarrow> round64 x = x"

section \<open>Axis panning: \<open>Highcharts.Axis#panStep\<close>\<close>

text \<open>The object returned by \<^verbatim>\<open>axis.getExtremes()\<close>; \<open>min\<close> and \<open>max\<close> carry a suffix.\<close>

record extremes =
  min_ext :: real
  max_ext :: real
  dataMin :: real
  dataMax :: real

text \<open>
  The optional parameter \<open>granularity\<close> only passes through \<^verbatim>\<open>granularity || 3\<close> before it
  is used, so its type keeps the values that the test tells apart: the parameter left out
  (\<^verbatim>\<open>undefined\<close>), not-a-number, and a finite number.
\<close>

datatype granularity = Omitted | GNaN | Gran real

text \<open>\<^verbatim>\<open>var gran = granularity || 3\<close>: a falsy operand (undefined, NaN, 0) gives 3.\<close>

definition gran :: "granularity \<Rightarrow> real" where
  "gran granularity =
     (case granularity of
        Omitted \<Rightarrow> 3
      | GNaN \<Rightarrow> 3
      | Gran x \<Rightarrow> if x = 0 then 3 else x)"

text \<open>
  \<open>panStep\<close> reads the extremes, computes the window and ends in
  \<^verbatim>\<open>this.setExtremes(newMin, newMax)\<close>; the result of the model is that pair of arguments.
  \<open>rnd\<close> rounds the result of each arithmetic operation.
\<close>

definition panStepWith ::
    "(real \<Rightarrow> real) \<Rightarrow> extremes \<Rightarrow> real \<Rightarrow> granularity \<Rightarrow> real \<times> real" where
  "panStepWith rnd extremes direction granularity =
     (let step = rnd (rnd (rnd (max_ext extremes - min_ext extremes) / gran granularity)
                        * direction);
          newMax = rnd (max_ext extremes + step);
          newMin = rnd (min_ext extremes + step);
          size = rnd (newMax - newMin)
      in if direction < 0 \<and> newMin < dataMin extremes
           then (dataMin extremes, rnd (dataMin extremes + size))
         else if direction > 0 \<and> newMax > dataMax extremes
           then (rnd (dataMax extremes - size), dataMax extremes)
         else (newMin, newMax))"

text \<open>\<open>panStep\<close> as the code computes it, in binary64 arithmetic.\<close>

definition panStep :: "extremes \<Rightarrow> real \<Rightarrow> granularity \<Rightarrow> real \<times> real" where
  "panStep = panStepWith round64"

text \<open>\<open>panStep\<close> in exact arithmetic.\<close>

definition panStepExact :: "extremes \<Rightarrow> real \<Rightarrow> granularity \<Rightarrow> real \<times> real" where
  "panStepExact = panStepWith exact"

text \<open>The value of the local variable \<open>step\<close> of \<open>panStep\<close>.\<close>

definition panStepDelta :: "(real \<Rightarrow> real) \<Rightarrow> extremes \<Rightarrow> real \<Rightarrow> granularity \<Rightarrow> real" where
  "panStepDelta rnd extremes direction granularity =
     rnd (rnd (rnd (max_ext extremes - min_ext extremes) / gran granularity) * direction)"

text \<open>Whether one of the two clamping branches of \<open>panStep\<close> is taken.\<close>

definition panClamped :: "(real \<Rightarrow> real) \<Rightarrow> extremes \<Rightarrow> real \<Rightarrow> granularity \<Rightarrow> bool" where
  "panClamped rnd extremes direction granularity =
     (let step = rnd (rnd (rnd (max_ext extremes - min_ext extremes) / gran granularity)
                        * direction);
          newMax = rnd (max_ext extremes + step);
          newMin = rnd (min_ext extremes + step)
      in (direction < 0 \<and> newMin < dataMin extremes) \<or>
         (direction > 0 \<and> newMax > dataMax extremes))"

text \<open>
  A bound on what the roundings of \<open>panStep\<close> can add up to: the additions and subtractions
  behind the two extremes are at most four on a path, each with a relative error of at most
  \<open>2^-53\<close> (and an absolute error of at most \<open>2^-1075\<close> for a subnormal result).
\<close>

definition panRoundingError :: "extremes \<Rightarrow> real \<Rightarrow> granularity \<Rightarrow> real" where
  "panRoundingError extremes direction granularity =
     (let step = round64 (round64 (round64 (max_ext extremes - min_ext extremes)
                                     / gran granularity) * direction);
          newMax = round64 (max_ext extremes + step);
          newMin = round64 (min_ext extremes + step);
          size = round64 (newMax - newMin)
      in (\<bar>max_ext extremes + step\<bar> + \<bar>min_ext extremes + step\<bar> + \<bar>newMax - newMin\<bar>
          + \<bar>dataMin extremes + size\<bar> + \<bar>dataMax extremes - size\<bar>) / 2 ^ 53
         + 4 * pow2 (- 1075))"

section \<open>The zoom component\<close>

text \<open>
  The component works on a chart and on helpers of its base class
  (\<^verbatim>\<open>AccessibilityComponent\<close>), of the keyboard navigation handler and of the renderer.
  The chart is a record of the properties that the component reads; every call on a
  collaborator is recorded, in order, in the list \<open>effects\<close> of the component, so that a
  statement can say what was called, with which arguments, and in which order. An access
  that JavaScript answers with a \<^verbatim>\<open>TypeError\<close> (a property of \<^verbatim>\<open>undefined\<close>) is the
  result \<open>Inl TypeError\<close>.
\<close>

type_synonym elem = nat

datatype error = TypeError

text \<open>The values a \<open>validate\<close> callback returns: \<^verbatim>\<open>a && b && c\<close> gives an operand, not a boolean.\<close>

datatype jsval = Undefined | Number nat | Object elem

fun truthy :: "jsval \<Rightarrow> bool" where
  "truthy Undefined = False"
| "truthy (Number n) = (n \<noteq> 0)"
| "truthy (Object e) = True"

text \<open>\<^verbatim>\<open>keyboardNavigationHandler.response\<close>: the codes \<open>success\<close>, \<open>prev\<close> and \<open>next\<close>.\<close>

datatype response = Success | Prev | Next

text \<open>
  A button of the renderer: its \<open>box\<close>, its DOM \<open>element\<close>, and the state last given to
  \<open>setState\<close> (0 normal, 2 selected).
\<close>

record button =
  box :: "elem option"
  element :: elem
  state :: nat

text \<open>
  \<open>mapZoom\<close> tells whether the method \<^verbatim>\<open>chart.mapZoom\<close> is there; \<open>mapNavButtons\<close>,
  \<open>resetZoomButton\<close> and \<open>drillUpButton\<close> are \<open>None\<close> when the property is undefined;
  \<open>drilldownBackText\<close> is what \<^verbatim>\<open>chart.getDrilldownBackText()\<close> returns.
\<close>

record chart =
  mapZoom :: bool
  mapNavButtons :: "button list option"
  resetZoomButton :: "button option"
  drillUpButton :: "button option"
  xAxis :: "extremes list"
  yAxis :: "extremes list"
  drilldownBackText :: string

text \<open>\<^verbatim>\<open>chart.langFormat(key, context)\<close>, kept symbolic: the key and the \<open>buttonText\<close> of the context.\<close>

datatype label = LangFormat string "string option"

datatype effect =
    RemoveElement "elem option"
  | AddProxyGroup elem
  | CreateProxyButton button "elem option" label elem
  | SetState nat nat
  | MapZoom
  | SetFocusToElement "elem option" elem
  | SetExtremes string nat real real

text \<open>The listener that \<open>init\<close> registers: \<^verbatim>\<open>function () { component.updateProxyOverlays(); }\<close>.\<close>

datatype handler = CallUpdateProxyOverlays

text \<open>
  The component (\<open>this\<close>): its chart, the index of the focused map navigation button, the
  proxy properties (\<open>drillUpProxyGroup\<close>, \<open>drillUpProxyButton\<close>, \<open>resetZoomProxyGroup\<close>,
  \<open>resetZoomProxyButton\<close>, read and written by name as in \<^verbatim>\<open>this[groupProp]\<close>), the
  listeners registered on the chart, the calls made so far, and the next unused element.
\<close>

record component =
  chart :: chart
  focusedMapNavButtonIx :: "nat option"
  proxies :: "string \<rightharpoonup> elem"
  eventListeners :: "(string \<times> handler) list"
  effects :: "effect list"
  nextElem :: elem

text \<open>An array read \<^verbatim>\<open>xs[i]\<close>: \<^verbatim>\<open>undefined\<close> out of range.\<close>

definition at_index :: "'a list \<Rightarrow> nat \<Rightarrow> 'a option" where
  "at_index xs i = (if i < length xs then Some (xs ! i) else None)"

subsection \<open>\<open>chartHasMapZoom\<close> and the \<open>validate\<close> callbacks\<close>

definition chartHasMapZoom :: "chart \<Rightarrow> jsval" where
  "chartHasMapZoom c =
     (if \<not> mapZoom c then Undefined
      else case mapNavButtons c of
             None \<Rightarrow> Undefined
           | Some buttons \<Rightarrow> Number (length buttons))"

text \<open>\<open>validate\<close> of the handler that \<open>getMapZoomNavigation\<close> builds.\<close>

definition mapZoomValidate :: "component \<Rightarrow> jsval" where
  "mapZoomValidate this = chartHasMapZoom (chart this)"

text \<open>\<^verbatim>\<open>chart[buttonProp]\<close> for the two names that \<open>getKeyboardNavigation\<close> passes.\<close>

definition chartButton :: "chart \<Rightarrow> string \<Rightarrow> button option" where
  "chartButton c buttonProp =
     (if buttonProp = ''resetZoomButton'' then resetZoomButton c
      else if buttonProp = ''drillUpButton'' then drillUpButton c
      else None)"

text \<open>\<open>validate\<close> of the handler that \<open>simpleButtonNavigation\<close> builds.\<close>

definition simpleButtonValidate :: "string \<Rightarrow> string \<Rightarrow> component \<Rightarrow> jsval" where
  "simpleButtonValidate buttonProp proxyProp this =
     (case chartButton (chart this) buttonProp of
        None \<Rightarrow> Undefined
      | Some b \<Rightarrow>
          (case box b of
             None \<Rightarrow> Undefined
           | Some _ \<Rightarrow>
               (case proxies this proxyProp of
                  None \<Rightarrow> Undefined
                | Some proxy \<Rightarrow> Object proxy)))"

subsection \<open>Proxy overlays\<close>

text \<open>
  Modelled from the spec: \<open>removeElement\<close>, \<open>addProxyGroup\<close> and \<open>createProxyButton\<close> belong to
  \<^verbatim>\<open>AccessibilityComponent.js\<close>, which is not among the sources. Following the spec
  (\<open>teardown\<close> removes a group if present and is a no-op for an absent reference; a group and
  a button are created fresh on each refresh), the model records each call with its
  arguments and hands out a new element for each creation.
\<close>

definition removeElement :: "elem option \<Rightarrow> component \<Rightarrow> component" where
  "removeElement el this = this\<lparr>effects := effects this @ [RemoveElement el]\<rparr>"

definition addProxyGroup :: "component \<Rightarrow> elem \<times> component" where
  "addProxyGroup this =
     (nextElem this,
      this\<lparr>effects := effects this @ [AddProxyGroup (nextElem this)],
           nextElem := Suc (nextElem this)\<rparr>)"

definition createProxyButton ::
    "button \<Rightarrow> elem option \<Rightarrow> label \<Rightarrow> component \<Rightarrow> elem \<times> component" where
  "createProxyButton buttonEl grp lbl this =
     (nextElem this,
      this\<lparr>effects := effects this @ [CreateProxyButton buttonEl grp lbl (nextElem this)],
           nextElem := Suc (nextElem this)\<rparr>)"

definition recreateProxyButtonAndGroup ::
    "button \<Rightarrow> string \<Rightarrow> string \<Rightarrow> label \<Rightarrow> component \<Rightarrow> component" where
  "recreateProxyButtonAndGroup buttonEl buttonProp groupProp lbl this =
     (let this1 = removeElement (proxies this groupProp) this;
          (grp, this2) = addProxyGroup this1;
          this3 = this2\<lparr>proxies := (proxies this2)(groupProp \<mapsto> grp)\<rparr>;
          (proxy, this4) = createProxyButton buttonEl (proxies this3 groupProp) lbl this3
      in this4\<lparr>proxies := (proxies this4)(buttonProp \<mapsto> proxy)\<rparr>)"

definition updateProxyOverlays :: "component \<Rightarrow> component" where
  "updateProxyOverlays this =
     (let this1 = removeElement (proxies this ''drillUpProxyGroup'') this;
          this2 = removeElement (proxies this1 ''resetZoomProxyGroup'') this1;
          this3 =
            (case resetZoomButton (chart this2) of
               None \<Rightarrow> this2
             | Some b \<Rightarrow>
                 recreateProxyButtonAndGroup b ''resetZoomProxyButton'' ''resetZoomProxyGroup''
                   (LangFormat ''accessibility.zoom.resetZoomButton'' None) this2)
      in case drillUpButton (chart this3) of
           None \<Rightarrow> this3
         | Some b \<Rightarrow>
             recreateProxyButtonAndGroup b ''drillUpProxyButton'' ''drillUpProxyGroup''
               (LangFormat ''accessibility.drillUpButton''
                  (Some (drilldownBackText (chart this3)))) this3)"

definition onChartRender :: "component \<Rightarrow> component" where
  "onChartRender this = updateProxyOverlays this"



subsection \<open>Event subscriptions\<close>

text \<open>
  Modelled from the spec: \<open>addEvent\<close> of \<^verbatim>\<open>AccessibilityComponent.js\<close> (not among the
  sources) subscribes a listener to an event of the chart, and firing an event runs the
  listeners subscribed to it, in the order of subscription.
\<close>

definition addEvent :: "string \<Rightarrow> handler \<Rightarrow> component \<Rightarrow> component" where
  "addEvent eventType h this = this\<lparr>eventListeners := eventListeners this @ [(eventType, h)]\<rparr>"

definition init :: "component \<Rightarrow> component" where
  "init this =
     foldl (\<lambda>component eventType. addEvent eventType CallUpdateProxyOverlays component) this
       [''afterShowResetZoom'', ''afterDrilldown'', ''drillupall'']"

fun runHandler :: "handler \<Rightarrow> component \<Rightarrow> component" where
  "runHandler CallUpdateProxyOverlays component = updateProxyOverlays component"

definition fireEvent :: "string \<Rightarrow> component \<Rightarrow> component" where
  "fireEvent eventType this =
     foldl (\<lambda>component h. runHandler h component) this
       (map snd (filter (\<lambda>l. fst l = eventType) (eventListeners this)))"

subsection \<open>Map zoom navigation\<close>

text \<open>
  The key codes \<^verbatim>\<open>this.keyCodes\<close> are defined in \<^verbatim>\<open>AccessibilityComponent.js\<close>, which
  is not among the sources; they are a parameter of the model.
\<close>

record keyCodes =
  up :: nat
  down :: nat
  left :: nat
  right :: nat

text \<open>\<^verbatim>\<open>chart[panAxis]\<close> for the two names that \<open>onMapKbdArrow\<close> computes.\<close>

definition chartAxes :: "chart \<Rightarrow> string \<Rightarrow> extremes list option" where
  "chartAxes c panAxis =
     (if panAxis = ''yAxis'' then Some (yAxis c)
      else if panAxis = ''xAxis'' then Some (xAxis c)
      else None)"

text \<open>
  \<^verbatim>\<open>chart[panAxis][i].panStep(direction, granularity)\<close>: the axis computes the new window
  and calls its \<open>setExtremes\<close>, which belongs to the chart and is recorded as a call.
\<close>

definition axisPanStep ::
    "string \<Rightarrow> nat \<Rightarrow> extremes \<Rightarrow> real \<Rightarrow> granularity \<Rightarrow> component \<Rightarrow> component" where
  "axisPanStep panAxis i axis direction granularity this =
     (let (newMin, newMax) = panStep axis direction granularity
      in this\<lparr>effects := effects this @ [SetExtremes panAxis i newMin newMax]\<rparr>)"

definition onMapKbdArrow :: "keyCodes \<Rightarrow> nat \<Rightarrow> component \<Rightarrow> error + (response \<times> component)" where
  "onMapKbdArrow keys keyCode this =
     (let panAxis = (if keyCode = up keys \<or> keyCode = down keys then ''yAxis'' else ''xAxis'');
          stepDirection = (if keyCode = left keys \<or> keyCode = up keys then - 1 else 1)
      in case chartAxes (chart this) panAxis of
           None \<Rightarrow> Inl TypeError
         | Some axes \<Rightarrow>
             (case at_index axes 0 of
                None \<Rightarrow> Inl TypeError
              | Some axis \<Rightarrow>
                  Inr (Success, axisPanStep panAxis 0 axis stepDirection Omitted this)))"

text \<open>
  Modelled from the spec: \<open>setState\<close> and \<open>setFocusToElement\<close> belong to the renderer and to
  the chart. \<open>setState\<close> marks a button (\<open>2\<close> selected, \<open>0\<close> not selected) and
  \<open>setFocusToElement\<close> moves the focus; both are recorded as calls, and \<open>setState\<close> also
  stores the state in the button.
\<close>

definition setState :: "nat \<Rightarrow> nat \<Rightarrow> component \<Rightarrow> component" where
  "setState i s this =
     this\<lparr>chart := (chart this)\<lparr>mapNavButtons :=
              map_option (\<lambda>buttons. buttons[i := (buttons ! i)\<lparr>state := s\<rparr>])
                (mapNavButtons (chart this))\<rparr>,
          effects := effects this @ [SetState i s]\<rparr>"

definition setFocusToElement :: "elem option \<Rightarrow> elem \<Rightarrow> component \<Rightarrow> component" where
  "setFocusToElement b el this = this\<lparr>effects := effects this @ [SetFocusToElement b el]\<rparr>"

text \<open>\<^verbatim>\<open>chart.mapNavButtons[ix]\<close>; \<open>None\<close> where a method call on the result raises.\<close>

definition mapNavButton :: "chart \<Rightarrow> nat option \<Rightarrow> button option" where
  "mapNavButton c ix =
     (case mapNavButtons c of
        None \<Rightarrow> None
      | Some buttons \<Rightarrow> (case ix of None \<Rightarrow> None | Some i \<Rightarrow> at_index buttons i))"

text \<open>
  \<open>onMapKbdTab\<close>; \<open>shiftKey\<close> is \<^verbatim>\<open>event.shiftKey\<close>. The index is a natural number: the
  decrement is only reached with a truthy index, that is an index other than \<open>0\<close>.
\<close>

definition onMapKbdTab :: "bool \<Rightarrow> component \<Rightarrow> error + (response \<times> component)" where
  "onMapKbdTab shiftKey this =
     (let isBackwards = shiftKey;
          ixTruthy = (case focusedMapNavButtonIx this of None \<Rightarrow> False | Some i \<Rightarrow> i \<noteq> 0);
          isMoveOutOfRange = (isBackwards \<and> \<not> ixTruthy) \<or> (\<not> isBackwards \<and> ixTruthy)
      in case (focusedMapNavButtonIx this, mapNavButton (chart this) (focusedMapNavButtonIx this)) of
           (Some i, Some old) \<Rightarrow>
             (let this1 = setState i 0 this
              in if isMoveOutOfRange then
                   (if mapZoom (chart this1)
                    then Inr (if isBackwards then Prev else Next,
                              this1\<lparr>effects := effects this1 @ [MapZoom]\<rparr>)
                    else Inl TypeError)
                 else
                   (let ix = (if isBackwards then i - 1 else i + 1);
                        this2 = this1\<lparr>focusedMapNavButtonIx := Some ix\<rparr>
                    in case mapNavButton (chart this2) (Some ix) of
                         None \<Rightarrow> Inl TypeError
                       | Some b \<Rightarrow>
                           Inr (Success,
                                setState ix 2 (setFocusToElement (box b) (element b) this2))))
         | _ \<Rightarrow> Inl TypeError)"

definition onMapNavInit :: "real \<Rightarrow> component \<Rightarrow> error + component" where
  "onMapNavInit direction this =
     (case mapNavButtons (chart this) of
        None \<Rightarrow> Inl TypeError
      | Some buttons \<Rightarrow>
          (let zoomIn = at_index buttons 0;
               zoomOut = at_index buttons 1;
               initialButton = (if direction > 0 then zoomIn else zoomOut);
               ix = (if direction > 0 then 0 else 1)
           in case initialButton of
                None \<Rightarrow> Inl TypeError
              | Some b \<Rightarrow>
                  Inr ((setState ix 2 (setFocusToElement (box b) (element b) this))
                         \<lparr>focusedMapNavButtonIx := Some ix\<rparr>)))"

text \<open>The indices of the map navigation buttons that are in the selected state.\<close>

definition selectedButtons :: "component \<Rightarrow> nat list" where
  "selectedButtons this =
     (case mapNavButtons (chart this) of
        None \<Rightarrow> []
      | Some buttons \<Rightarrow> filter (\<lambda>i. state (buttons ! i) = 2) [0..<length buttons])"

text \<open>
  The map zoom handler is active: \<open>validate\<close> was truthy, the chart has its two map navigation
  buttons, and \<open>init\<close> has focused and selected button \<open>0\<close> or \<open>1\<close>, the only selected one.
\<close>

definition mapZoomActive :: "component \<Rightarrow> bool" where
  "mapZoomActive this \<longleftrightarrow>
     truthy (mapZoomValidate this) \<and>
     (case (mapNavButtons (chart this), focusedMapNavButtonIx this) of
        (Some buttons, Some i) \<Rightarrow> 2 \<le> length buttons \<and> i < 2 \<and> selectedButtons this = [i]
      | _ \<Rightarrow> False)"

subsection \<open>A sample chart\<close>

text \<open>
  A map chart with the two map navigation buttons (zoom in, zoom out), a drill-up button, no
  reset-zoom button and one axis of each kind, and a component for it that has not been
  initialised; \<open>sampleKeys\<close> are the key codes of the arrow keys in a browser.
\<close>

definition sampleChart :: chart where
  "sampleChart =
     \<lparr>mapZoom = True,
      mapNavButtons = Some [\<lparr>box = Some 10, element = 11, state = 0\<rparr>,
                            \<lparr>box = Some 20, element = 21, state = 0\<rparr>],
      resetZoomButton = None,
      drillUpButton = Some \<lparr>box = Some 30, element = 31, state = 0\<rparr>,
      xAxis = [\<lparr>min_ext = 0, max_ext = 10, dataMin = 0, dataMax = 30\<rparr>],
      yAxis = [\<lparr>min_ext = 25, max_ext = 30, dataMin = 0, dataMax = 30\<rparr>],
      drilldownBackText = ''Back''\<rparr>"

definition sampleComponent :: component where
  "sampleComponent =
     \<lparr>chart = sampleChart, focusedMapNavButtonIx = None, proxies = Map.empty,
      eventListeners = [], effects = [], nextElem = 100\<rparr>"

text \<open>The sample component after \<open>onMapNavInit\<close> with a positive direction: button \<open>0\<close> focused.\<close>

definition focusedComponent :: component where
  "focusedComponent =
     \<lparr>chart = sampleChart\<lparr>mapNavButtons :=
                Some [\<lparr>box = Some 10, element = 11, state = 2\<rparr>,
                      \<lparr>box = Some 20, element = 21, state = 0\<rparr>]\<rparr>,
      focusedMapNavButtonIx = Some 0, proxies = Map.empty,
      eventListeners = [], effects = [SetFocusToElement (Some 10) 11, SetState 0 2],
      nextElem = 100\<rparr>"

definition sampleKeys :: keyCodes where
  "sampleKeys = \<lparr>up = 38, down = 40, left = 37, right = 39\<rparr>"

section \<open>Properties of the rounding\<close>

lemma pow2_powr: "pow2 k = 2 powr of_int k"
  by (simp add: pow2_def powr_real_of_int inverse_eq_divide)

lemma pow2_pos: "0 < pow2 k"
  by (simp add: pow2_def)

lemma round64_zero: "round64 0 = 0"
  by (simp add: round64_def)

text \<open>The rounding of a number whose binary exponent \<open>e\<close> is known.\<close>

lemma round64_at:
  assumes low: "pow2 e \<le> \<bar>x\<bar>" and high: "\<bar>x\<bar> < pow2 (e + 1)" and normal: "- 1022 \<le> e"
  shows "round64 x = of_int (roundHalfEven (x / pow2 (e - 52))) * pow2 (e - 52)"
proof -
  have pos: "0 < \<bar>x\<bar>"
    using low pow2_pos [of e] by linarith
  have "\<lfloor>log 2 \<bar>x\<bar>\<rfloor> = e"
    using low high pos by (simp add: floor_log_eq_powr_iff pow2_powr)
  with pos normal show ?thesis
    by (simp add: round64_def Let_def max_def)
qed

text \<open>The integers up to \<open>2^53\<close> in magnitude are binary64 numbers.\<close>

lemma roundHalfEven_of_int: "roundHalfEven (of_int m) = m"
  by (simp add: roundHalfEven_def)

lemma round64_of_int:
  assumes bound: "\<bar>n\<bar> \<le> 2 ^ 53"
  shows "round64 (of_int n) = of_int n"
proof (cases "n = 0")
  case True
  then show ?thesis by (simp add: round64_def)
next
  case False
  define x :: real where "x = \<bar>of_int n\<bar>"
  define e where "e = \<lfloor>log 2 x\<rfloor>"
  have x1: "1 \<le> x"
    using False by (simp add: x_def)
  have x53: "x \<le> 2 ^ 53"
    using bound unfolding x_def by (metis of_int_abs of_int_le_iff of_int_numeral of_int_power)
  have e0: "0 \<le> e"
    using x1 by (simp add: e_def zero_le_log_cancel_iff)
  have range: "pow2 e \<le> x" "x < pow2 (e + 1)"
    using x1 floor_log_eq_powr_iff [of x 2 e] by (simp_all add: e_def pow2_powr)
  have e53: "e \<le> 53"
  proof (rule ccontr)
    assume "\<not> e \<le> 53"
    then have "54 \<le> nat e" by simp
    then have "(2::real) ^ 54 \<le> 2 ^ nat e"
      by (intro power_increasing) auto
    with range(1) e0 x53 show False
      by (simp add: pow2_def)
  qed
  have r: "round64 (of_int n) = of_int (roundHalfEven (of_int n / pow2 (e - 52))) * pow2 (e - 52)"
    using range e0 unfolding x_def by (intro round64_at) auto
  show ?thesis
  proof (cases "e \<le> 52")
    case True
    then have p: "pow2 (e - 52) = 1 / 2 ^ nat (52 - e)"
      by (auto simp: pow2_def)
    have "of_int n / pow2 (e - 52) = real_of_int (n * 2 ^ nat (52 - e))"
      by (simp add: p)
    then have "roundHalfEven (of_int n / pow2 (e - 52)) = n * 2 ^ nat (52 - e)"
      by (simp only: roundHalfEven_of_int)
    then show ?thesis
      unfolding r by (simp add: p)
  next
    case False
    with e53 have e: "e = 53" by simp
    from range(1) have "2 ^ 53 \<le> x"
      by (simp add: e pow2_def)
    with x53 have "x = 2 ^ 53" by simp
    then have "real_of_int n = 2 ^ 53 \<or> real_of_int n = - (2 ^ 53)"
      unfolding x_def by (auto simp: abs_if split: if_splits)
    then have "n = 2 ^ 53 \<or> n = - (2 ^ 53)"
      by (metis of_int_eq_iff of_int_minus of_int_numeral of_int_power)
    then show ?thesis
      unfolding r e by (auto simp: pow2_def roundHalfEven_def)
  qed
qed

lemma round64_small_integers:
  "round64 1 = 1" "round64 2 = 2" "round64 4 = 4" "round64 5 = 5" "round64 8 = 8"
  "round64 10 = 10" "round64 12 = 12" "round64 (- 4) = - 4" "round64 (- 12) = - 12"
  using round64_of_int [of 1] round64_of_int [of 2] round64_of_int [of 4] round64_of_int [of 5]
    round64_of_int [of 8] round64_of_int [of 10] round64_of_int [of 12]
    round64_of_int [of "- 4"] round64_of_int [of "- 12"]
  by simp_all

text \<open>
  One third is not a binary64 number: \<open>1 / 3\<close> rounds to \<open>t = 6004799503160661 / 2^54\<close>. The
  sums \<open>2 + t = 42033596522124629 / 2^54\<close> and \<open>1 + t = 24019198012642645 / 2^54\<close> round in
  different directions, so that the difference of the rounded sums is \<open>1 + 2^-52\<close>.
\<close>

lemma round64_third:
  "round64 (1 / 3) = 6004799503160661 / 18014398509481984"
  "round64 (6004799503160661 / 18014398509481984) = 6004799503160661 / 18014398509481984"
  "round64 (42033596522124629 / 18014398509481984) = 5254199565265579 / 2251799813685248"
  "round64 (24019198012642645 / 18014398509481984) = 6004799503160661 / 4503599627370496"
  "round64 (4503599627370497 / 4503599627370496) = 4503599627370497 / 4503599627370496"
  "round64 (4503599627370495 / 4503599627370496) = 4503599627370495 / 4503599627370496"
proof -
  show "round64 (1 / 3) = 6004799503160661 / 18014398509481984"
    by (subst round64_at [of "- 2"]) (simp_all add: pow2_def roundHalfEven_def)
  show "round64 (6004799503160661 / 18014398509481984) = 6004799503160661 / 18014398509481984"
    by (subst round64_at [of "- 2"]) (simp_all add: pow2_def roundHalfEven_def)
  show "round64 (42033596522124629 / 18014398509481984) = 5254199565265579 / 2251799813685248"
    by (subst round64_at [of 1]) (simp_all add: pow2_def roundHalfEven_def)
  show "round64 (24019198012642645 / 18014398509481984) = 6004799503160661 / 4503599627370496"
    by (subst round64_at [of 0]) (simp_all add: pow2_def roundHalfEven_def)
  show "round64 (4503599627370497 / 4503599627370496) = 4503599627370497 / 4503599627370496"
    by (subst round64_at [of 0]) (simp_all add: pow2_def roundHalfEven_def)
  show "round64 (4503599627370495 / 4503599627370496) = 4503599627370495 / 4503599627370496"
    by (subst round64_at [of "- 1"]) (simp_all add: pow2_def roundHalfEven_def)
qed

text \<open>The same roundings at twice the size.\<close>

lemma round64_two_thirds:
  "round64 (2 / 3) = 6004799503160661 / 9007199254740992"
  "round64 (6004799503160661 / 9007199254740992) = 6004799503160661 / 9007199254740992"
  "round64 (42033596522124629 / 9007199254740992) = 5254199565265579 / 1125899906842624"
  "round64 (24019198012642645 / 9007199254740992) = 6004799503160661 / 2251799813685248"
  "round64 (4503599627370497 / 2251799813685248) = 4503599627370497 / 2251799813685248"
proof -
  show "round64 (2 / 3) = 6004799503160661 / 9007199254740992"
    by (subst round64_at [of "- 1"]) (simp_all add: pow2_def roundHalfEven_def)
  show "round64 (6004799503160661 / 9007199254740992) = 6004799503160661 / 9007199254740992"
    by (subst round64_at [of "- 1"]) (simp_all add: pow2_def roundHalfEven_def)
  show "round64 (42033596522124629 / 9007199254740992) = 5254199565265579 / 1125899906842624"
    by (subst round64_at [of 2]) (simp_all add: pow2_def roundHalfEven_def)
  show "round64 (24019198012642645 / 9007199254740992) = 6004799503160661 / 2251799813685248"
    by (subst round64_at [of 1]) (simp_all add: pow2_def roundHalfEven_def)
  show "round64 (4503599627370497 / 2251799813685248) = 4503599627370497 / 2251799813685248"
    by (subst round64_at [of 1]) (simp_all add: pow2_def roundHalfEven_def)
qed

text \<open>The error of one rounding, and its sign.\<close>

lemma roundHalfEven_error: "\<bar>of_int (roundHalfEven y) - y\<bar> \<le> 1 / 2"
proof -
  define r where "r = y - of_int \<lfloor>y\<rfloor>"
  have r: "0 \<le> r" "r < 1"
    unfolding r_def by linarith+
  have y: "y = of_int \<lfloor>y\<rfloor> + r"
    by (simp add: r_def)
  consider "r < 1 / 2" | "r > 1 / 2" | "r = 1 / 2"
    by linarith
  then show ?thesis
  proof cases
    case 1
    then have "roundHalfEven y = \<lfloor>y\<rfloor>"
      by (simp add: roundHalfEven_def Let_def r_def)
    with 1 r show ?thesis
      by (simp add: r_def)
  next
    case 2
    then have "roundHalfEven y = \<lfloor>y\<rfloor> + 1"
      by (simp add: roundHalfEven_def Let_def r_def)
    with 2 r show ?thesis
      by (simp add: r_def)
  next
    case 3
    then have "roundHalfEven y = \<lfloor>y\<rfloor> \<or> roundHalfEven y = \<lfloor>y\<rfloor> + 1"
      by (simp add: roundHalfEven_def Let_def r_def)
    with 3 show ?thesis
      by (auto simp: r_def)
  qed
qed

lemma pow2_add: "pow2 (a + b) = pow2 a * pow2 b"
  by (simp add: pow2_powr powr_add)

lemma round64_error_ulp:
  "\<bar>round64 x - x\<bar> \<le> pow2 (max \<lfloor>log 2 \<bar>x\<bar>\<rfloor> (- 1022) - 53)"
proof (cases "x = 0")
  case True
  then show ?thesis
    using pow2_pos [of "max \<lfloor>log 2 \<bar>x\<bar>\<rfloor> (- 1022) - 53"] by (simp add: round64_def)
next
  case False
  define e where "e = max \<lfloor>log 2 \<bar>x\<bar>\<rfloor> (- 1022)"
  define u where "u = pow2 (e - 52)"
  have u: "0 < u"
    by (simp add: u_def pow2_pos)
  have "round64 x - x = (of_int (roundHalfEven (x / u)) - x / u) * u"
    using False u by (simp add: round64_def Let_def e_def u_def algebra_simps)
  then have "\<bar>round64 x - x\<bar> = \<bar>of_int (roundHalfEven (x / u)) - x / u\<bar> * u"
    using u by (simp add: abs_mult)
  also have "\<dots> \<le> 1 / 2 * u"
    using u roundHalfEven_error [of "x / u"] by (intro mult_right_mono) auto
  also have "1 / 2 * u = pow2 (e - 53)"
    using pow2_add [of "e - 53" 1] by (simp add: u_def pow2_def)
  finally show ?thesis
    by (simp add: e_def)
qed

lemma round64_error:
  "\<bar>round64 x - x\<bar> \<le> \<bar>x\<bar> / 2 ^ 53 + pow2 (- 1075)"
proof (cases "pow2 (- 1022) \<le> \<bar>x\<bar>")
  case True
  define e where "e = \<lfloor>log 2 \<bar>x\<bar>\<rfloor>"
  have pos: "0 < \<bar>x\<bar>"
    using True pow2_pos [of "- 1022"] by linarith
  have low: "pow2 e \<le> \<bar>x\<bar>"
    using pos floor_log_eq_powr_iff [of "\<bar>x\<bar>" 2 e] by (simp add: e_def pow2_powr)
  have "- 1022 \<le> e"
  proof -
    have "log 2 (pow2 (- 1022)) \<le> log 2 \<bar>x\<bar>"
      using True pos pow2_pos [of "- 1022"] by (subst log_le_cancel_iff) auto
    then have "of_int (- 1022) \<le> log 2 \<bar>x\<bar>"
      by (simp add: pow2_powr)
    then show ?thesis
      unfolding e_def by (simp add: le_floor_iff)
  qed
  then have "max \<lfloor>log 2 \<bar>x\<bar>\<rfloor> (- 1022) = e"
    by (simp add: e_def)
  then have "\<bar>round64 x - x\<bar> \<le> pow2 (e - 53)"
    using round64_error_ulp [of x] by simp
  also have "pow2 (e - 53) = pow2 e / 2 ^ 53"
    using pow2_add [of e "- 53"] by (simp add: pow2_def)
  also have "\<dots> \<le> \<bar>x\<bar> / 2 ^ 53"
    using low by (simp add: divide_right_mono)
  finally show ?thesis
    using pow2_pos [of "- 1075"] by linarith
next
  case False
  then have small: "\<bar>x\<bar> < pow2 (- 1022)" by simp
  show ?thesis
  proof (cases "x = 0")
    case True
    then show ?thesis
      using pow2_pos [of "- 1075"] by (simp add: round64_zero)
  next
    case nz: False
    have "log 2 \<bar>x\<bar> < log 2 (pow2 (- 1022))"
      using small nz pow2_pos [of "- 1022"] by (subst log_less_cancel_iff) auto
    then have "log 2 \<bar>x\<bar> < of_int (- 1022)"
      by (simp add: pow2_powr)
    then have "\<lfloor>log 2 \<bar>x\<bar>\<rfloor> < - 1022"
      by (simp add: floor_less_iff)
    then have "max \<lfloor>log 2 \<bar>x\<bar>\<rfloor> (- 1022) = - 1022"
      by simp
    then have "\<bar>round64 x - x\<bar> \<le> pow2 (- 1075)"
      using round64_error_ulp [of x] by simp
    moreover have "0 \<le> \<bar>x\<bar> / 2 ^ 53"
      by simp
    ultimately show ?thesis
      by linarith
  qed
qed

lemma roundHalfEven_sign:
  "0 \<le> y \<Longrightarrow> 0 \<le> roundHalfEven y" "y \<le> 0 \<Longrightarrow> roundHalfEven y \<le> 0"
proof -
  show "0 \<le> roundHalfEven y" if "0 \<le> y"
  proof -
    from that have "0 \<le> \<lfloor>y\<rfloor>" by simp
    then show ?thesis
      by (auto simp: roundHalfEven_def Let_def)
  qed
  show "roundHalfEven y \<le> 0" if "y \<le> 0"
  proof -
    from that have f: "\<lfloor>y\<rfloor> \<le> 0" by (simp add: floor_le_iff)
    have "\<lfloor>y\<rfloor> + 1 \<le> 0" if "1 / 2 \<le> y - of_int \<lfloor>y\<rfloor>"
    proof -
      from that \<open>y \<le> 0\<close> have "real_of_int \<lfloor>y\<rfloor> < 0" by linarith
      then show ?thesis by linarith
    qed
    with f show ?thesis
      by (auto simp: roundHalfEven_def Let_def not_less)
  qed
qed

lemma round64_sign:
  "0 \<le> x \<Longrightarrow> 0 \<le> round64 x" "x \<le> 0 \<Longrightarrow> round64 x \<le> 0"
proof -
  have u: "0 < pow2 k" for k
    by (rule pow2_pos)
  show "0 \<le> round64 x" if "0 \<le> x"
    using that u roundHalfEven_sign(1) [of "x / pow2 (max \<lfloor>log 2 \<bar>x\<bar>\<rfloor> (- 1022) - 52)"]
    by (simp add: round64_def Let_def zero_le_mult_iff zero_le_divide_iff less_imp_le)
  show "round64 x \<le> 0" if "x \<le> 0"
    using that u roundHalfEven_sign(2) [of "x / pow2 (max \<lfloor>log 2 \<bar>x\<bar>\<rfloor> (- 1022) - 52)"]
    by (simp add: round64_def Let_def mult_le_0_iff divide_le_0_iff less_imp_le)
qed

text \<open>Rounding is monotone.\<close>

lemma roundHalfEven_floor: "\<lfloor>y\<rfloor> \<le> roundHalfEven y" "roundHalfEven y \<le> \<lfloor>y\<rfloor> + 1"
  by (simp_all add: roundHalfEven_def Let_def)

lemma roundHalfEven_mono:
  assumes "a \<le> b"
  shows "roundHalfEven a \<le> roundHalfEven b"
proof (cases "\<lfloor>a\<rfloor> = \<lfloor>b\<rfloor>")
  case True
  with assms have "a - of_int \<lfloor>a\<rfloor> \<le> b - of_int \<lfloor>b\<rfloor>"
    by simp
  with True show ?thesis
    by (auto simp: roundHalfEven_def Let_def)
next
  case False
  with assms have "\<lfloor>a\<rfloor> < \<lfloor>b\<rfloor>"
    using floor_mono [of a b] by linarith
  then have "roundHalfEven a \<le> \<lfloor>b\<rfloor>"
    using roundHalfEven_floor(2) [of a] by linarith
  then show ?thesis
    using roundHalfEven_floor(1) [of b] by linarith
qed

lemma roundHalfEven_eq:
  assumes "y = of_int f + r" and "0 \<le> r" and "r < 1"
  shows "roundHalfEven y =
           (if r < 1 / 2 then f else if r > 1 / 2 then f + 1 else if even f then f else f + 1)"
proof -
  have "\<lfloor>y\<rfloor> = f"
    using assms by (intro floor_unique) auto
  moreover from assms(1) have "y - of_int f = r"
    by simp
  ultimately show ?thesis
    by (simp add: roundHalfEven_def Let_def)
qed

lemma roundHalfEven_minus: "roundHalfEven (- y) = - roundHalfEven y"
proof (cases "y = of_int \<lfloor>y\<rfloor>")
  case True
  then obtain m where "y = of_int m" ..
  then have "roundHalfEven y = m" "roundHalfEven (- y) = - m"
    using roundHalfEven_of_int [of m] roundHalfEven_of_int [of "- m"] by simp_all
  then show ?thesis by simp
next
  case False
  define f where "f = \<lfloor>y\<rfloor>"
  define r where "r = y - of_int f"
  have r: "0 < r" "r < 1"
    using False unfolding r_def f_def by linarith+
  have plus: "roundHalfEven y =
      (if r < 1 / 2 then f else if r > 1 / 2 then f + 1 else if even f then f else f + 1)"
    using r by (intro roundHalfEven_eq) (simp_all add: r_def)
  have minus: "roundHalfEven (- y) =
      (if 1 - r < 1 / 2 then - f - 1 else if 1 - r > 1 / 2 then - f - 1 + 1
       else if even (- f - 1) then - f - 1 else - f - 1 + 1)"
    using r by (intro roundHalfEven_eq) (simp_all add: r_def)
  consider "r < 1 / 2" | "r > 1 / 2" | "r = 1 / 2"
    by linarith
  then show ?thesis
    unfolding plus minus by cases auto
qed

lemma round64_minus: "round64 (- x) = - round64 x"
  by (simp add: round64_def Let_def roundHalfEven_minus)

lemma pow2_mono: "a \<le> b \<Longrightarrow> pow2 a \<le> pow2 b"
  by (simp add: pow2_powr)

text \<open>A positive number and its rounding lie in the same binade, ends included.\<close>

lemma round64_binade:
  assumes pos: "0 < x"
  defines "e \<equiv> max \<lfloor>log 2 x\<rfloor> (- 1022)"
  shows "round64 x \<le> pow2 (e + 1)"
    and "pow2 e \<le> x \<Longrightarrow> pow2 e \<le> round64 x"
proof -
  define u where "u = pow2 (e - 52)"
  have u: "0 < u"
    by (simp add: u_def pow2_pos)
  have r: "round64 x = of_int (roundHalfEven (x / u)) * u"
    using pos by (simp add: round64_def Let_def e_def u_def)
  have numerals: "pow2 53 = 2 ^ 53" "pow2 52 = 2 ^ 52"
    by (simp_all add: pow2_def)
  have top: "pow2 (e + 1) = 2 ^ 53 * u"
    using pow2_add [of "e - 52" 53] unfolding numerals u_def by (simp add: mult.commute add.commute)
  have bottom: "pow2 e = 2 ^ 52 * u"
    using pow2_add [of "e - 52" 52] unfolding numerals u_def by (simp add: mult.commute)
  have "x < pow2 (\<lfloor>log 2 x\<rfloor> + 1)"
    using pos floor_log_eq_powr_iff [of x 2 "\<lfloor>log 2 x\<rfloor>"] by (simp add: pow2_powr)
  also have "\<dots> \<le> pow2 (e + 1)"
    by (intro pow2_mono) (simp add: e_def)
  finally have "x < 2 ^ 53 * u"
    unfolding top .
  with u have "x / u < 2 ^ 53"
    by (simp add: pos_divide_less_eq)
  then have "x / u \<le> of_int (2 ^ 53)"
    by simp
  then have "roundHalfEven (x / u) \<le> 2 ^ 53"
    using roundHalfEven_mono [of "x / u" "of_int (2 ^ 53)"] by (simp only: roundHalfEven_of_int)
  then have "real_of_int (roundHalfEven (x / u)) \<le> 2 ^ 53"
    by (metis of_int_le_iff of_int_numeral of_int_power)
  then show "round64 x \<le> pow2 (e + 1)"
    unfolding r top using u by (intro mult_right_mono) auto
  show "pow2 e \<le> round64 x" if "pow2 e \<le> x"
  proof -
    from that have "2 ^ 52 * u \<le> x"
      unfolding bottom .
    with u have "2 ^ 52 \<le> x / u"
      by (simp add: pos_le_divide_eq)
    then have "of_int (2 ^ 52) \<le> x / u"
      by simp
    then have "2 ^ 52 \<le> roundHalfEven (x / u)"
      using roundHalfEven_mono [of "of_int (2 ^ 52)" "x / u"] by (simp only: roundHalfEven_of_int)
    then have "2 ^ 52 \<le> real_of_int (roundHalfEven (x / u))"
      by (metis of_int_le_iff of_int_numeral of_int_power)
    then show ?thesis
      unfolding r bottom using u by (intro mult_right_mono) auto
  qed
qed

lemma round64_mono_pos:
  assumes "0 < x" and "x \<le> y"
  shows "round64 x \<le> round64 y"
proof -
  define ex where "ex = max \<lfloor>log 2 x\<rfloor> (- 1022)"
  define ey where "ey = max \<lfloor>log 2 y\<rfloor> (- 1022)"
  have y: "0 < y"
    using assms by linarith
  have "log 2 x \<le> log 2 y"
    using assms y by (subst log_le_cancel_iff) auto
  then have le: "ex \<le> ey"
    unfolding ex_def ey_def by (intro max.mono floor_mono) auto
  show ?thesis
  proof (cases "ex = ey")
    case True
    define u where "u = pow2 (ex - 52)"
    have u: "0 < u"
      by (simp add: u_def pow2_pos)
    have "roundHalfEven (x / u) \<le> roundHalfEven (y / u)"
      using assms u by (intro roundHalfEven_mono divide_right_mono) auto
    then have "of_int (roundHalfEven (x / u)) * u \<le> of_int (roundHalfEven (y / u)) * u"
      using u by (intro mult_right_mono) auto
    then show ?thesis
      using assms y True
      by (simp add: round64_def Let_def u_def ex_def ey_def)
  next
    case False
    with le have lt: "ex + 1 \<le> ey" by simp
    then have "- 1022 < ey" unfolding ex_def by simp
    then have ey: "ey = \<lfloor>log 2 y\<rfloor>"
      unfolding ey_def by simp
    have "pow2 ey \<le> y"
      using y floor_log_eq_powr_iff [of y 2 "\<lfloor>log 2 y\<rfloor>"] by (simp add: ey pow2_powr)
    then have "pow2 ey \<le> round64 y"
      using round64_binade(2) [OF y] by (simp add: ey_def)
    moreover have "round64 x \<le> pow2 (ex + 1)"
      using round64_binade(1) [OF assms(1)] by (simp add: ex_def)
    moreover have "pow2 (ex + 1) \<le> pow2 ey"
      using lt by (rule pow2_mono)
    ultimately show ?thesis
      by linarith
  qed
qed

lemma round64_mono:
  assumes "x \<le> y"
  shows "round64 x \<le> round64 y"
proof -
  consider "0 < x" | "x \<le> 0" "0 \<le> y" | "y < 0"
    using assms by linarith
  then show ?thesis
  proof cases
    case 1
    then show ?thesis
      using assms by (rule round64_mono_pos)
  next
    case 2
    then show ?thesis
      using round64_sign(1) [of y] round64_sign(2) [of x] by linarith
  next
    case 3
    then have "round64 (- y) \<le> round64 (- x)"
      using assms by (intro round64_mono_pos) auto
    then show ?thesis
      by (simp add: round64_minus)
  qed
qed

section \<open>Properties of \<open>panStep\<close>\<close>

lemma gran_nonzero: "gran g \<noteq> 0"
  by (simp add: gran_def split: granularity.split)

lemma gran_positive: "0 < x \<Longrightarrow> 0 < gran (Gran x)"
  by (simp add: gran_def)

lemma gran_falsy: "gran (Gran 0) = 3" "gran Omitted = 3" "gran GNaN = 3" "gran (Gran 3) = 3"
  by (simp_all add: gran_def)

text \<open>\<open>panStep\<close> in exact arithmetic, by the value of \<open>step\<close>.\<close>

lemma panStepExact_by_delta:
  "panStepExact ex d g =
     (if d < 0 \<and> min_ext ex + panStepDelta exact ex d g < dataMin ex
        then (dataMin ex, dataMin ex + (max_ext ex - min_ext ex))
      else if d > 0 \<and> max_ext ex + panStepDelta exact ex d g > dataMax ex
        then (dataMax ex - (max_ext ex - min_ext ex), dataMax ex)
      else (min_ext ex + panStepDelta exact ex d g, max_ext ex + panStepDelta exact ex d g))"
  by (simp add: panStepExact_def panStepWith_def panStepDelta_def exact_def Let_def)

lemma panClamped_exact_by_delta:
  "panClamped exact ex d g \<longleftrightarrow>
     (d < 0 \<and> min_ext ex + panStepDelta exact ex d g < dataMin ex) \<or>
     (d > 0 \<and> max_ext ex + panStepDelta exact ex d g > dataMax ex)"
  by (simp add: panClamped_def panStepDelta_def exact_def Let_def)

lemma panStepExact_size:
  "snd (panStepExact ex d g) - fst (panStepExact ex d g) = max_ext ex - min_ext ex"
  by (simp add: panStepExact_by_delta)

lemma panStepDelta_exact_sign:
  assumes "min_ext ex \<le> max_ext ex" and "0 < gran g"
  shows "0 \<le> panStepDelta exact ex 1 g" and "panStepDelta exact ex (- 1) g \<le> 0"
  using assms by (simp_all add: panStepDelta_def exact_def)

text \<open>\<open>panStep\<close> in binary64 arithmetic: the sign of the step, the branches, and the errors.\<close>

lemma panStepDelta_round64_sign:
  assumes "min_ext ex \<le> max_ext ex" and "0 < gran g"
  shows "0 \<le> panStepDelta round64 ex 1 g" and "panStepDelta round64 ex (- 1) g \<le> 0"
proof -
  have "0 \<le> round64 (max_ext ex - min_ext ex)"
    using assms(1) by (intro round64_sign) simp
  then have "0 \<le> round64 (max_ext ex - min_ext ex) / gran g"
    using assms(2) by simp
  then have q: "0 \<le> round64 (round64 (max_ext ex - min_ext ex) / gran g)"
    by (rule round64_sign)
  show "0 \<le> panStepDelta round64 ex 1 g"
    unfolding panStepDelta_def using q by (intro round64_sign) simp
  show "panStepDelta round64 ex (- 1) g \<le> 0"
    unfolding panStepDelta_def using q by (intro round64_sign) simp
qed

lemma panStep_rounding_facts:
  fixes ex d g
  defines "s \<equiv> panStepDelta round64 ex d g"
  defines "hi \<equiv> round64 (max_ext ex + s)"
  defines "lo \<equiv> round64 (min_ext ex + s)"
  defines "sz \<equiv> round64 (hi - lo)"
  shows "panStep ex d g =
      (if d < 0 \<and> lo < dataMin ex then (dataMin ex, round64 (dataMin ex + sz))
       else if d > 0 \<and> hi > dataMax ex then (round64 (dataMax ex - sz), dataMax ex)
       else (lo, hi))"
    and "panClamped round64 ex d g \<longleftrightarrow> (d < 0 \<and> lo < dataMin ex) \<or> (d > 0 \<and> hi > dataMax ex)"
    and "\<bar>hi - (max_ext ex + s)\<bar> + \<bar>lo - (min_ext ex + s)\<bar> + \<bar>sz - (hi - lo)\<bar>
          + \<bar>round64 (dataMin ex + sz) - (dataMin ex + sz)\<bar> \<le> panRoundingError ex d g"
    and "\<bar>hi - (max_ext ex + s)\<bar> + \<bar>lo - (min_ext ex + s)\<bar> + \<bar>sz - (hi - lo)\<bar>
          + \<bar>round64 (dataMax ex - sz) - (dataMax ex - sz)\<bar> \<le> panRoundingError ex d g"
proof -
  define p where "p = pow2 (- 1075)"
  define a1 where "a1 = \<bar>max_ext ex + s\<bar> / 2 ^ 53"
  define a2 where "a2 = \<bar>min_ext ex + s\<bar> / 2 ^ 53"
  define a3 where "a3 = \<bar>hi - lo\<bar> / 2 ^ 53"
  define a4 where "a4 = \<bar>dataMin ex + sz\<bar> / 2 ^ 53"
  define a5 where "a5 = \<bar>dataMax ex - sz\<bar> / 2 ^ 53"
  have nn: "0 < p" "0 \<le> a1" "0 \<le> a2" "0 \<le> a3" "0 \<le> a4" "0 \<le> a5"
    by (simp_all add: p_def pow2_pos a1_def a2_def a3_def a4_def a5_def)
  have e1: "\<bar>hi - (max_ext ex + s)\<bar> \<le> a1 + p"
    and e2: "\<bar>lo - (min_ext ex + s)\<bar> \<le> a2 + p"
    and e3: "\<bar>sz - (hi - lo)\<bar> \<le> a3 + p"
    and e4: "\<bar>round64 (dataMin ex + sz) - (dataMin ex + sz)\<bar> \<le> a4 + p"
    and e5: "\<bar>round64 (dataMax ex - sz) - (dataMax ex - sz)\<bar> \<le> a5 + p"
    unfolding hi_def lo_def sz_def p_def a1_def a2_def a3_def a4_def a5_def
    by (rule round64_error)+
  have total: "panRoundingError ex d g = a1 + a2 + a3 + a4 + a5 + 4 * p"
    by (simp add: panRoundingError_def Let_def add_divide_distrib p_def a1_def a2_def a3_def
        a4_def a5_def s_def hi_def lo_def sz_def panStepDelta_def)
  show "panStep ex d g =
      (if d < 0 \<and> lo < dataMin ex then (dataMin ex, round64 (dataMin ex + sz))
       else if d > 0 \<and> hi > dataMax ex then (round64 (dataMax ex - sz), dataMax ex)
       else (lo, hi))"
    by (simp add: panStep_def panStepWith_def panStepDelta_def Let_def s_def hi_def lo_def
        sz_def)
  show "panClamped round64 ex d g \<longleftrightarrow> (d < 0 \<and> lo < dataMin ex) \<or> (d > 0 \<and> hi > dataMax ex)"
    by (simp add: panClamped_def panStepDelta_def Let_def s_def hi_def lo_def)
  show "\<bar>hi - (max_ext ex + s)\<bar> + \<bar>lo - (min_ext ex + s)\<bar> + \<bar>sz - (hi - lo)\<bar>
        + \<bar>round64 (dataMin ex + sz) - (dataMin ex + sz)\<bar> \<le> panRoundingError ex d g"
    unfolding total using e1 e2 e3 e4 nn by linarith
  show "\<bar>hi - (max_ext ex + s)\<bar> + \<bar>lo - (min_ext ex + s)\<bar> + \<bar>sz - (hi - lo)\<bar>
        + \<bar>round64 (dataMax ex - sz) - (dataMax ex - sz)\<bar> \<le> panRoundingError ex d g"
    unfolding total using e1 e2 e3 e5 nn by linarith
qed

lemma panStep_bounds_up_to_rounding:
  assumes inv: "dataMin ex \<le> min_ext ex" "min_ext ex \<le> max_ext ex" "max_ext ex \<le> dataMax ex"
      and dir: "d = 1 \<or> d = - 1"
      and pos: "0 < gran g"
  shows "dataMin ex - panRoundingError ex d g \<le> fst (panStep ex d g)"
    and "fst (panStep ex d g) \<le> snd (panStep ex d g) + panRoundingError ex d g"
    and "snd (panStep ex d g) \<le> dataMax ex + panRoundingError ex d g"
proof -
  define s where "s = panStepDelta round64 ex d g"
  define hi where "hi = round64 (max_ext ex + s)"
  define lo where "lo = round64 (min_ext ex + s)"
  define sz where "sz = round64 (hi - lo)"
  define E where "E = panRoundingError ex d g"
  note facts = panStep_rounding_facts [of ex d g, folded s_def, folded hi_def lo_def,
      folded sz_def, folded E_def]
  have sign: "(d = 1 \<and> 0 \<le> s) \<or> (d = - 1 \<and> s \<le> 0)"
    using dir panStepDelta_round64_sign [OF inv(2) pos] by (auto simp: s_def)
  have E0: "0 \<le> E"
    using facts(3) by linarith
  have goal: "dataMin ex - E \<le> fst (panStep ex d g)
      \<and> fst (panStep ex d g) \<le> snd (panStep ex d g) + E
      \<and> snd (panStep ex d g) \<le> dataMax ex + E"
  proof (cases "d < 0 \<and> lo < dataMin ex")
    case True
    then have r: "panStep ex d g = (dataMin ex, round64 (dataMin ex + sz))"
      by (simp add: facts(1))
    from True sign have "s \<le> 0" by auto
    then show ?thesis
      unfolding r using facts(3) inv E0 by simp linarith
  next
    case low: False
    show ?thesis
    proof (cases "d > 0 \<and> hi > dataMax ex")
      case True
      with low have r: "panStep ex d g = (round64 (dataMax ex - sz), dataMax ex)"
        by (simp add: facts(1))
      from True sign have "0 \<le> s" by auto
      then show ?thesis
        unfolding r using facts(4) inv E0 by simp linarith
    next
      case False
      with low have r: "panStep ex d g = (lo, hi)"
        by (simp add: facts(1))
      show ?thesis
        unfolding r using facts(3) inv E0 sign low False by simp linarith
    qed
  qed
  then show "dataMin ex - panRoundingError ex d g \<le> fst (panStep ex d g)"
    and "fst (panStep ex d g) \<le> snd (panStep ex d g) + panRoundingError ex d g"
    and "snd (panStep ex d g) \<le> dataMax ex + panRoundingError ex d g"
    by (simp_all add: E_def)
qed

lemma panStep_size_error:
  "\<bar>(snd (panStep ex d g) - fst (panStep ex d g)) - (max_ext ex - min_ext ex)\<bar>
     \<le> panRoundingError ex d g"
  unfolding panStep_rounding_facts(1) [of ex d g]
  using panStep_rounding_facts(3) [of ex d g] panStep_rounding_facts(4) [of ex d g]
  by (auto split: if_splits)

text \<open>
  \<open>panStep\<close> in binary64 arithmetic, for data bounds that are binary64 numbers: the order of
  the two extremes, and the data bound on the side that the pan moves away from, hold
  exactly.
\<close>

lemma panStep_bounds_binary64:
  assumes inv: "dataMin ex \<le> min_ext ex" "min_ext ex \<le> max_ext ex" "max_ext ex \<le> dataMax ex"
      and dir: "d = 1 \<or> d = - 1"
      and pos: "0 < gran g"
      and numbers: "isBinary64 (dataMin ex)" "isBinary64 (dataMax ex)"
  shows "fst (panStep ex d g) \<le> snd (panStep ex d g)"
    and "d = - 1 \<or> \<not> panClamped round64 ex d g \<Longrightarrow> dataMin ex \<le> fst (panStep ex d g)"
    and "d = 1 \<or> \<not> panClamped round64 ex d g \<Longrightarrow> snd (panStep ex d g) \<le> dataMax ex"
proof -
  define s where "s = panStepDelta round64 ex d g"
  define hi where "hi = round64 (max_ext ex + s)"
  define lo where "lo = round64 (min_ext ex + s)"
  define sz where "sz = round64 (hi - lo)"
  note facts = panStep_rounding_facts(1,2) [of ex d g, folded s_def, folded hi_def lo_def,
      folded sz_def]
  have kept: "round64 (dataMin ex) = dataMin ex" "round64 (dataMax ex) = dataMax ex"
    using numbers by (simp_all add: isBinary64_def)
  have sign: "(d = 1 \<and> 0 \<le> s) \<or> (d = - 1 \<and> s \<le> 0)"
    using dir panStepDelta_round64_sign [OF inv(2) pos] by (auto simp: s_def)
  have order: "lo \<le> hi"
    unfolding lo_def hi_def using inv(2) by (intro round64_mono) simp
  then have sz: "0 \<le> sz"
    unfolding sz_def by (intro round64_sign) simp
  have below: "round64 (dataMax ex - sz) \<le> dataMax ex"
    using round64_mono [of "dataMax ex - sz" "dataMax ex"] sz by (simp add: kept)
  have above: "dataMin ex \<le> round64 (dataMin ex + sz)"
    using round64_mono [of "dataMin ex" "dataMin ex + sz"] sz by (simp add: kept)
  have lo_up: "dataMin ex \<le> lo" if "0 \<le> s"
    using round64_mono [of "dataMin ex" "min_ext ex + s"] that inv(1) by (simp add: kept lo_def)
  have hi_down: "hi \<le> dataMax ex" if "s \<le> 0"
    using round64_mono [of "max_ext ex + s" "dataMax ex"] that inv(3) by (simp add: kept hi_def)
  show "fst (panStep ex d g) \<le> snd (panStep ex d g)"
    unfolding facts(1) using order below above by simp
  show "dataMin ex \<le> fst (panStep ex d g)" if "d = - 1 \<or> \<not> panClamped round64 ex d g"
    using that sign lo_up unfolding facts by (auto split: if_splits)
  show "snd (panStep ex d g) \<le> dataMax ex" if "d = 1 \<or> \<not> panClamped round64 ex d g"
    using that sign hi_down unfolding facts by (auto split: if_splits)
qed

subsection \<open>The window size\<close>

text \<open>
  C2, as stated, fails on the code, whose arithmetic rounds: for the axis
  \<open>{min: 1, max: 2, dataMin: 0, dataMax: 10}\<close>, \<open>panStep(1, 3)\<close> takes no clamping branch and
  sets \<open>newMin = 1.3333333333333333\<close> and \<open>newMax = 2.3333333333333335\<close>, whose difference is
  \<open>1 + 2^-52\<close> and not the window size \<open>1\<close> that was read.
\<close>

theorem panStep_window_size_counterexample:
  "panStep \<lparr>min_ext = 1, max_ext = 2, dataMin = 0, dataMax = 10\<rparr> 1 (Gran 3)
     = (6004799503160661 / 4503599627370496, 5254199565265579 / 2251799813685248)
   \<and> snd (panStep \<lparr>min_ext = 1, max_ext = 2, dataMin = 0, dataMax = 10\<rparr> 1 (Gran 3))
       - fst (panStep \<lparr>min_ext = 1, max_ext = 2, dataMin = 0, dataMax = 10\<rparr> 1 (Gran 3))
     = 1 + 1 / 4503599627370496
   \<and> snd (panStep \<lparr>min_ext = 1, max_ext = 2, dataMin = 0, dataMax = 10\<rparr> 1 (Gran 3))
       - fst (panStep \<lparr>min_ext = 1, max_ext = 2, dataMin = 0, dataMax = 10\<rparr> 1 (Gran 3))
     \<noteq> max_ext \<lparr>min_ext = 1, max_ext = 2, dataMin = 0, dataMax = 10\<rparr>
         - min_ext \<lparr>min_ext = 1, max_ext = 2, dataMin = 0, dataMax = 10\<rparr>"
proof -
  have "panStep \<lparr>min_ext = 1, max_ext = 2, dataMin = 0, dataMax = 10\<rparr> 1 (Gran 3)
      = (6004799503160661 / 4503599627370496, 5254199565265579 / 2251799813685248)"
    unfolding panStep_def panStepWith_def Let_def
    by (simp add: gran_def round64_small_integers round64_third)
  then show ?thesis
    by simp
qed

text \<open>
  C2, amended. For every axis, direction and granularity, \<open>panStep\<close> preserves the window
  size up to rounding. In exact arithmetic the pair that it hands to \<open>setExtremes\<close> spans a
  window of the size it read, \<open>newMax - newMin = max - min\<close>, in the two clamping branches as
  in the branch without clamping; in the binary64 arithmetic of the code the two sides differ
  by at most \<open>panRoundingError\<close>, the rounding errors of the four additions and subtractions
  involved.
\<close>

theorem panStep_preserves_window_size_up_to_rounding:
  "snd (panStepExact ex d g) - fst (panStepExact ex d g) = max_ext ex - min_ext ex
   \<and> \<bar>(snd (panStep ex d g) - fst (panStep ex d g)) - (max_ext ex - min_ext ex)\<bar>
       \<le> panRoundingError ex d g"
  by (simp add: panStepExact_size panStep_size_error)

theorem panStep_preserves_window_size_up_to_rounding_witness:
  "panStepExact \<lparr>min_ext = 1, max_ext = 2, dataMin = 0, dataMax = 10\<rparr> 1 (Gran 3) = (4 / 3, 7 / 3)
   \<and> snd (panStepExact \<lparr>min_ext = 1, max_ext = 2, dataMin = 0, dataMax = 10\<rparr> 1 (Gran 3))
       - fst (panStepExact \<lparr>min_ext = 1, max_ext = 2, dataMin = 0, dataMax = 10\<rparr> 1 (Gran 3)) = 1
   \<and> panStep \<lparr>min_ext = 1, max_ext = 2, dataMin = 0, dataMax = 10\<rparr> 1 (Gran 3)
       = (6004799503160661 / 4503599627370496, 5254199565265579 / 2251799813685248)
   \<and> 1 / 4503599627370496
       \<le> panRoundingError \<lparr>min_ext = 1, max_ext = 2, dataMin = 0, dataMax = 10\<rparr> 1 (Gran 3)"
proof -
  have "panStep \<lparr>min_ext = 1, max_ext = 2, dataMin = 0, dataMax = 10\<rparr> 1 (Gran 3)
      = (6004799503160661 / 4503599627370496, 5254199565265579 / 2251799813685248)"
    unfolding panStep_def panStepWith_def Let_def
    by (simp add: gran_def round64_small_integers round64_third)
  moreover have "panStepExact \<lparr>min_ext = 1, max_ext = 2, dataMin = 0, dataMax = 10\<rparr> 1 (Gran 3)
      = (4 / 3, 7 / 3)"
    by (simp add: panStepExact_by_delta panStepDelta_def exact_def gran_def)
  ultimately show ?thesis
    using panStep_preserves_window_size_up_to_rounding
      [of "\<lparr>min_ext = 1, max_ext = 2, dataMin = 0, dataMax = 10\<rparr>" 1 "Gran 3"]
    by simp
qed

subsection \<open>The data bounds\<close>

text \<open>
  C1, as stated, fails on the code, whose arithmetic rounds. For the axis
  \<open>{min: 1, max: 2, dataMin: 1, dataMax: 2}\<close>, which satisfies
  \<open>dataMin \<le> min \<le> max \<le> dataMax\<close>, \<open>panStep(1, 3)\<close> clamps \<open>newMax\<close> to \<open>2\<close> and sets
  \<open>newMin = 2 - (1 + 2^-52) = 0.9999999999999998\<close>, which is below \<open>dataMin\<close>. For the mirrored
  axis \<open>{min: -2, max: -1, dataMin: -2, dataMax: -1}\<close>, \<open>panStep(-1, 3)\<close> clamps \<open>newMin\<close> to
  \<open>-2\<close> and sets \<open>newMax = -0.9999999999999998\<close>, which is above \<open>dataMax\<close>. For the axis
  \<open>{min: 2, max: 4, dataMin: 0, dataMax: 10}\<close>, \<open>panStep(1, 3)\<close> takes no clamping branch and
  sets \<open>newMin = 2.6666666666666665\<close> and \<open>newMax = 4.666666666666667\<close>, whose difference is
  \<open>2 + 2^-51\<close> and not the window size \<open>2\<close>.
\<close>

theorem panStep_data_bounds_counterexample:
  "(dataMin \<lparr>min_ext = 1, max_ext = 2, dataMin = 1, dataMax = 2\<rparr>
     \<le> min_ext \<lparr>min_ext = 1, max_ext = 2, dataMin = 1, dataMax = 2\<rparr>
   \<and> min_ext \<lparr>min_ext = 1, max_ext = 2, dataMin = 1, dataMax = 2\<rparr>
     \<le> max_ext \<lparr>min_ext = 1, max_ext = 2, dataMin = 1, dataMax = 2\<rparr>
   \<and> max_ext \<lparr>min_ext = 1, max_ext = 2, dataMin = 1, dataMax = 2\<rparr>
     \<le> dataMax \<lparr>min_ext = 1, max_ext = 2, dataMin = 1, dataMax = 2\<rparr>
   \<and> panStep \<lparr>min_ext = 1, max_ext = 2, dataMin = 1, dataMax = 2\<rparr> 1 (Gran (real 3))
     = (4503599627370495 / 4503599627370496, 2)
   \<and> fst (panStep \<lparr>min_ext = 1, max_ext = 2, dataMin = 1, dataMax = 2\<rparr> 1 (Gran (real 3)))
     < dataMin \<lparr>min_ext = 1, max_ext = 2, dataMin = 1, dataMax = 2\<rparr>)
 \<and> (dataMin \<lparr>min_ext = - 2, max_ext = - 1, dataMin = - 2, dataMax = - 1\<rparr>
     \<le> min_ext \<lparr>min_ext = - 2, max_ext = - 1, dataMin = - 2, dataMax = - 1\<rparr>
   \<and> min_ext \<lparr>min_ext = - 2, max_ext = - 1, dataMin = - 2, dataMax = - 1\<rparr>
     \<le> max_ext \<lparr>min_ext = - 2, max_ext = - 1, dataMin = - 2, dataMax = - 1\<rparr>
   \<and> max_ext \<lparr>min_ext = - 2, max_ext = - 1, dataMin = - 2, dataMax = - 1\<rparr>
     \<le> dataMax \<lparr>min_ext = - 2, max_ext = - 1, dataMin = - 2, dataMax = - 1\<rparr>
   \<and> panStep \<lparr>min_ext = - 2, max_ext = - 1, dataMin = - 2, dataMax = - 1\<rparr> (- 1) (Gran (real 3))
     = (- 2, - (4503599627370495 / 4503599627370496))
   \<and> dataMax \<lparr>min_ext = - 2, max_ext = - 1, dataMin = - 2, dataMax = - 1\<rparr>
     < snd (panStep \<lparr>min_ext = - 2, max_ext = - 1, dataMin = - 2, dataMax = - 1\<rparr> (- 1)
              (Gran (real 3))))
 \<and> (dataMin \<lparr>min_ext = 2, max_ext = 4, dataMin = 0, dataMax = 10\<rparr>
     \<le> min_ext \<lparr>min_ext = 2, max_ext = 4, dataMin = 0, dataMax = 10\<rparr>
   \<and> min_ext \<lparr>min_ext = 2, max_ext = 4, dataMin = 0, dataMax = 10\<rparr>
     \<le> max_ext \<lparr>min_ext = 2, max_ext = 4, dataMin = 0, dataMax = 10\<rparr>
   \<and> max_ext \<lparr>min_ext = 2, max_ext = 4, dataMin = 0, dataMax = 10\<rparr>
     \<le> dataMax \<lparr>min_ext = 2, max_ext = 4, dataMin = 0, dataMax = 10\<rparr>
   \<and> panStep \<lparr>min_ext = 2, max_ext = 4, dataMin = 0, dataMax = 10\<rparr> 1 (Gran (real 3))
     = (6004799503160661 / 2251799813685248, 5254199565265579 / 1125899906842624)
   \<and> \<not> panClamped round64 \<lparr>min_ext = 2, max_ext = 4, dataMin = 0, dataMax = 10\<rparr> 1
          (Gran (real 3))
   \<and> snd (panStep \<lparr>min_ext = 2, max_ext = 4, dataMin = 0, dataMax = 10\<rparr> 1 (Gran (real 3)))
       - fst (panStep \<lparr>min_ext = 2, max_ext = 4, dataMin = 0, dataMax = 10\<rparr> 1 (Gran (real 3)))
     \<noteq> max_ext \<lparr>min_ext = 2, max_ext = 4, dataMin = 0, dataMax = 10\<rparr>
       - min_ext \<lparr>min_ext = 2, max_ext = 4, dataMin = 0, dataMax = 10\<rparr>)"
proof -
  have up: "panStep \<lparr>min_ext = 1, max_ext = 2, dataMin = 1, dataMax = 2\<rparr> 1 (Gran (real 3))
      = (4503599627370495 / 4503599627370496, 2)"
    unfolding panStep_def panStepWith_def Let_def
    by (simp add: gran_def round64_small_integers round64_third)
  have down: "panStep \<lparr>min_ext = - 2, max_ext = - 1, dataMin = - 2, dataMax = - 1\<rparr> (- 1)
        (Gran (real 3))
      = (- 2, - (4503599627370495 / 4503599627370496))"
    unfolding panStep_def panStepWith_def Let_def
    by (simp add: gran_def round64_minus round64_small_integers round64_third)
  have free: "panStep \<lparr>min_ext = 2, max_ext = 4, dataMin = 0, dataMax = 10\<rparr> 1 (Gran (real 3))
      = (6004799503160661 / 2251799813685248, 5254199565265579 / 1125899906842624)"
    unfolding panStep_def panStepWith_def Let_def
    by (simp add: gran_def round64_small_integers round64_two_thirds)
  have unclamped: "\<not> panClamped round64 \<lparr>min_ext = 2, max_ext = 4, dataMin = 0, dataMax = 10\<rparr> 1
      (Gran (real 3))"
    unfolding panClamped_def Let_def
    by (simp add: gran_def round64_small_integers round64_two_thirds)
  show ?thesis
    unfolding up down free using unclamped by simp
qed

text \<open>
  C1, amended. For an axis with \<open>dataMin \<le> min \<le> max \<le> dataMax\<close>, a direction of \<open>1\<close> or \<open>-1\<close>
  and a positive integer granularity:

    \<^item> in exact arithmetic, the extremes that \<open>panStep\<close> sets satisfy
      \<open>dataMin \<le> newMin \<le> newMax \<le> dataMax\<close>, and \<open>newMax - newMin\<close> is the window size
      \<open>max - min\<close> when no clamping branch was taken;

    \<^item> in the binary64 arithmetic of the code (barring overflow: \<open>round64\<close> has no largest
      number), the data bounds being binary64 numbers, \<open>newMin \<le> newMax\<close> holds exactly,
      \<open>dataMin \<le> newMin\<close> holds exactly for the direction \<open>-1\<close> and whenever no clamping branch
      was taken, and \<open>newMax \<le> dataMax\<close> holds exactly for the direction \<open>1\<close> and whenever no
      clamping branch was taken;

    \<^item> in the binary64 arithmetic of the code, a pan that was clamped at one data bound sets
      that extreme to the bound, and the other extreme can pass the opposite data bound by
      at most \<open>panRoundingError\<close>;

    \<^item> in the binary64 arithmetic of the code, when no clamping branch was taken,
      \<open>newMax - newMin\<close> differs from the window size \<open>max - min\<close> by at most
      \<open>panRoundingError\<close>.
\<close>

theorem panStep_within_data_bounds_up_to_rounding:
  assumes inv: "dataMin ex \<le> min_ext ex" "min_ext ex \<le> max_ext ex" "max_ext ex \<le> dataMax ex"
      and dir: "d = 1 \<or> d = - 1"
      and pos: "0 < n"
  shows "dataMin ex \<le> fst (panStepExact ex d (Gran (real n)))
       \<and> fst (panStepExact ex d (Gran (real n))) \<le> snd (panStepExact ex d (Gran (real n)))
       \<and> snd (panStepExact ex d (Gran (real n))) \<le> dataMax ex
       \<and> (\<not> panClamped exact ex d (Gran (real n)) \<longrightarrow>
            snd (panStepExact ex d (Gran (real n))) - fst (panStepExact ex d (Gran (real n)))
              = max_ext ex - min_ext ex)
       \<and> (isBinary64 (dataMin ex) \<and> isBinary64 (dataMax ex) \<longrightarrow>
            fst (panStep ex d (Gran (real n))) \<le> snd (panStep ex d (Gran (real n)))
          \<and> (d = - 1 \<or> \<not> panClamped round64 ex d (Gran (real n)) \<longrightarrow>
               dataMin ex \<le> fst (panStep ex d (Gran (real n))))
          \<and> (d = 1 \<or> \<not> panClamped round64 ex d (Gran (real n)) \<longrightarrow>
               snd (panStep ex d (Gran (real n))) \<le> dataMax ex))
       \<and> (d = 1 \<and> panClamped round64 ex d (Gran (real n)) \<longrightarrow>
            snd (panStep ex d (Gran (real n))) = dataMax ex
          \<and> dataMin ex - panRoundingError ex d (Gran (real n))
               \<le> fst (panStep ex d (Gran (real n))))
       \<and> (d = - 1 \<and> panClamped round64 ex d (Gran (real n)) \<longrightarrow>
            fst (panStep ex d (Gran (real n))) = dataMin ex
          \<and> snd (panStep ex d (Gran (real n)))
               \<le> dataMax ex + panRoundingError ex d (Gran (real n)))
       \<and> (\<not> panClamped round64 ex d (Gran (real n)) \<longrightarrow>
            \<bar>(snd (panStep ex d (Gran (real n))) - fst (panStep ex d (Gran (real n))))
               - (max_ext ex - min_ext ex)\<bar> \<le> panRoundingError ex d (Gran (real n)))"
proof -
  let ?g = "Gran (real n)"
  have g: "0 < gran ?g"
    using pos by (simp add: gran_positive)
  have up: "0 \<le> panStepDelta exact ex 1 ?g" and down: "panStepDelta exact ex (- 1) ?g \<le> 0"
    using panStepDelta_exact_sign [OF inv(2) g] by simp_all
  have exact_part: "dataMin ex \<le> fst (panStepExact ex d ?g)
       \<and> fst (panStepExact ex d ?g) \<le> snd (panStepExact ex d ?g)
       \<and> snd (panStepExact ex d ?g) \<le> dataMax ex
       \<and> (\<not> panClamped exact ex d ?g \<longrightarrow>
            snd (panStepExact ex d ?g) - fst (panStepExact ex d ?g) = max_ext ex - min_ext ex)"
    using dir
  proof
    assume d: "d = 1"
    show ?thesis
      using inv up unfolding d by (auto simp: panStepExact_by_delta)
  next
    assume d: "d = - 1"
    show ?thesis
      using inv down unfolding d by (auto simp: panStepExact_by_delta)
  qed
  have binary64_part: "fst (panStep ex d ?g) \<le> snd (panStep ex d ?g)
       \<and> (d = - 1 \<or> \<not> panClamped round64 ex d ?g \<longrightarrow> dataMin ex \<le> fst (panStep ex d ?g))
       \<and> (d = 1 \<or> \<not> panClamped round64 ex d ?g \<longrightarrow> snd (panStep ex d ?g) \<le> dataMax ex)"
    if "isBinary64 (dataMin ex) \<and> isBinary64 (dataMax ex)"
    using panStep_bounds_binary64 [OF inv dir g] that by blast
  note rounded = panStep_bounds_up_to_rounding [OF inv dir g]
  have high: "snd (panStep ex d ?g) = dataMax ex"
    if "d = 1 \<and> panClamped round64 ex d ?g"
    using that unfolding panStep_rounding_facts(1,2) [of ex d ?g] by (auto split: if_splits)
  have low: "fst (panStep ex d ?g) = dataMin ex"
    if "d = - 1 \<and> panClamped round64 ex d ?g"
    using that unfolding panStep_rounding_facts(1,2) [of ex d ?g] by (auto split: if_splits)
  have size: "\<bar>(snd (panStep ex d ?g) - fst (panStep ex d ?g)) - (max_ext ex - min_ext ex)\<bar>
      \<le> panRoundingError ex d ?g"
    by (rule panStep_size_error)
  from exact_part binary64_part rounded high low size show ?thesis
    by blast
qed

theorem panStep_within_data_bounds_up_to_rounding_witness:
  "(let ex = \<lparr>min_ext = 1, max_ext = 2, dataMin = 1, dataMax = 2\<rparr> in
      dataMin ex \<le> min_ext ex \<and> min_ext ex \<le> max_ext ex \<and> max_ext ex \<le> dataMax ex
      \<and> (0::nat) < 3
      \<and> isBinary64 (dataMin ex) \<and> isBinary64 (dataMax ex)
      \<and> panStepExact ex 1 (Gran (real 3)) = (1, 2)
      \<and> panClamped exact ex 1 (Gran (real 3))
      \<and> panClamped round64 ex 1 (Gran (real 3))
      \<and> panStep ex 1 (Gran (real 3)) = (4503599627370495 / 4503599627370496, 2)
      \<and> fst (panStep ex 1 (Gran (real 3))) \<le> snd (panStep ex 1 (Gran (real 3)))
      \<and> snd (panStep ex 1 (Gran (real 3))) = dataMax ex
      \<and> dataMin ex - panRoundingError ex 1 (Gran (real 3))
           \<le> 4503599627370495 / 4503599627370496
      \<and> 1 / 4503599627370496 \<le> panRoundingError ex 1 (Gran (real 3)))
   \<and> (let mirrored = \<lparr>min_ext = - 2, max_ext = - 1, dataMin = - 2, dataMax = - 1\<rparr> in
      dataMin mirrored \<le> min_ext mirrored \<and> min_ext mirrored \<le> max_ext mirrored
      \<and> max_ext mirrored \<le> dataMax mirrored
      \<and> isBinary64 (dataMin mirrored) \<and> isBinary64 (dataMax mirrored)
      \<and> panClamped round64 mirrored (- 1) (Gran (real 3))
      \<and> panStep mirrored (- 1) (Gran (real 3)) = (- 2, - (4503599627370495 / 4503599627370496))
      \<and> fst (panStep mirrored (- 1) (Gran (real 3))) \<le> snd (panStep mirrored (- 1) (Gran (real 3)))
      \<and> fst (panStep mirrored (- 1) (Gran (real 3))) = dataMin mirrored
      \<and> - (4503599627370495 / 4503599627370496)
           \<le> dataMax mirrored + panRoundingError mirrored (- 1) (Gran (real 3))
      \<and> 1 / 4503599627370496 \<le> panRoundingError mirrored (- 1) (Gran (real 3)))
   \<and> (let inner = \<lparr>min_ext = 2, max_ext = 4, dataMin = 0, dataMax = 10\<rparr> in
      dataMin inner \<le> min_ext inner \<and> min_ext inner \<le> max_ext inner
      \<and> max_ext inner \<le> dataMax inner
      \<and> isBinary64 (dataMin inner) \<and> isBinary64 (dataMax inner)
      \<and> \<not> panClamped round64 inner 1 (Gran (real 3))
      \<and> panStep inner 1 (Gran (real 3))
           = (6004799503160661 / 2251799813685248, 5254199565265579 / 1125899906842624)
      \<and> dataMin inner \<le> fst (panStep inner 1 (Gran (real 3)))
      \<and> fst (panStep inner 1 (Gran (real 3))) \<le> snd (panStep inner 1 (Gran (real 3)))
      \<and> snd (panStep inner 1 (Gran (real 3))) \<le> dataMax inner
      \<and> 1 / 2251799813685248 \<le> panRoundingError inner 1 (Gran (real 3)))
   \<and> (let wide = \<lparr>min_ext = 0, max_ext = 10, dataMin = 0, dataMax = 30\<rparr> in
      dataMin wide \<le> min_ext wide \<and> min_ext wide \<le> max_ext wide \<and> max_ext wide \<le> dataMax wide
      \<and> panStepExact wide 1 (Gran (real 3)) = (10 / 3, 40 / 3)
      \<and> \<not> panClamped exact wide 1 (Gran (real 3))
      \<and> snd (panStepExact wide 1 (Gran (real 3))) - fst (panStepExact wide 1 (Gran (real 3)))
            = max_ext wide - min_ext wide)"
proof -
  let ?g = "Gran (real 3)"
  let ?ex = "\<lparr>min_ext = 1, max_ext = 2, dataMin = 1, dataMax = 2\<rparr>"
  let ?mirrored = "\<lparr>min_ext = - 2, max_ext = - 1, dataMin = - 2, dataMax = - 1\<rparr>"
  let ?inner = "\<lparr>min_ext = 2, max_ext = 4, dataMin = 0, dataMax = 10\<rparr>"
  let ?wide = "\<lparr>min_ext = 0, max_ext = 10, dataMin = 0, dataMax = 30\<rparr>"
  have numbers: "isBinary64 1" "isBinary64 2" "isBinary64 (- 1)" "isBinary64 (- 2)"
    "isBinary64 0" "isBinary64 10"
    by (simp_all add: isBinary64_def round64_minus round64_small_integers round64_zero)
  have result: "panStepExact ?wide 1 ?g = (10 / 3, 40 / 3)"
    and full: "panStepExact ?ex 1 ?g = (1, 2)"
    by (simp_all add: panStepExact_by_delta panStepDelta_def exact_def gran_def)
  have unclamped: "\<not> panClamped exact ?wide 1 ?g"
    and clamped: "panClamped exact ?ex 1 ?g"
    by (simp_all add: panClamped_exact_by_delta panStepDelta_def exact_def gran_def)
  have up: "panStep ?ex 1 ?g = (4503599627370495 / 4503599627370496, 2)"
    unfolding panStep_def panStepWith_def Let_def
    by (simp add: gran_def round64_small_integers round64_third)
  have up_clamped: "panClamped round64 ?ex 1 ?g"
    unfolding panClamped_def Let_def
    by (simp add: gran_def round64_small_integers round64_third)
  have down: "panStep ?mirrored (- 1) ?g = (- 2, - (4503599627370495 / 4503599627370496))"
    unfolding panStep_def panStepWith_def Let_def
    by (simp add: gran_def round64_minus round64_small_integers round64_third)
  have down_clamped: "panClamped round64 ?mirrored (- 1) ?g"
    unfolding panClamped_def Let_def
    by (simp add: gran_def round64_minus round64_small_integers round64_third)
  have free: "panStep ?inner 1 ?g
      = (6004799503160661 / 2251799813685248, 5254199565265579 / 1125899906842624)"
    unfolding panStep_def panStepWith_def Let_def
    by (simp add: gran_def round64_small_integers round64_two_thirds)
  have free_unclamped: "\<not> panClamped round64 ?inner 1 ?g"
    unfolding panClamped_def Let_def
    by (simp add: gran_def round64_small_integers round64_two_thirds)
  note narrow = panStep_within_data_bounds_up_to_rounding [of ?ex 1 3]
  note negative = panStep_within_data_bounds_up_to_rounding [of ?mirrored "- 1" 3]
  note middle = panStep_within_data_bounds_up_to_rounding [of ?inner 1 3]
  note broad = panStep_within_data_bounds_up_to_rounding [of ?wide 1 3]
  from narrow numbers up_clamped
  have first: "fst (panStep ?ex 1 ?g) \<le> snd (panStep ?ex 1 ?g)
      \<and> snd (panStep ?ex 1 ?g) = dataMax ?ex
      \<and> dataMin ?ex - panRoundingError ?ex 1 ?g \<le> fst (panStep ?ex 1 ?g)"
    by simp
  from negative numbers down_clamped
  have second: "fst (panStep ?mirrored (- 1) ?g) \<le> snd (panStep ?mirrored (- 1) ?g)
      \<and> fst (panStep ?mirrored (- 1) ?g) = dataMin ?mirrored
      \<and> snd (panStep ?mirrored (- 1) ?g)
           \<le> dataMax ?mirrored + panRoundingError ?mirrored (- 1) ?g"
    by simp
  from middle numbers free_unclamped
  have third: "dataMin ?inner \<le> fst (panStep ?inner 1 ?g)
      \<and> fst (panStep ?inner 1 ?g) \<le> snd (panStep ?inner 1 ?g)
      \<and> snd (panStep ?inner 1 ?g) \<le> dataMax ?inner
      \<and> \<bar>(snd (panStep ?inner 1 ?g) - fst (panStep ?inner 1 ?g))
           - (max_ext ?inner - min_ext ?inner)\<bar> \<le> panRoundingError ?inner 1 ?g"
    by simp
  from broad unclamped
  have fourth: "snd (panStepExact ?wide 1 ?g) - fst (panStepExact ?wide 1 ?g)
      = max_ext ?wide - min_ext ?wide"
    by simp
  have e1: "1 / 4503599627370496 \<le> panRoundingError ?ex 1 ?g"
    using first unfolding up by simp
  have e2: "1 / 4503599627370496 \<le> panRoundingError ?mirrored (- 1) ?g"
    using second unfolding down by simp
  have e3: "1 / 2251799813685248 \<le> panRoundingError ?inner 1 ?g"
    using third unfolding free by simp
  show ?thesis
    unfolding Let_def
    using numbers result full unclamped clamped up_clamped down_clamped free_unclamped
      first second third fourth e1 e2 e3
    unfolding up down free by simp
qed
subsection \<open>An inverted axis\<close>

text \<open>
  C6, as stated, fails on the code: \<open>panStep\<close> has no check for an inverted axis. With
  \<open>min = 12\<close>, \<open>max = 0\<close>, direction \<open>1\<close> and granularity \<open>3\<close> it sets \<open>(8, -4)\<close>: a window of
  negative size, and not the extremes it read.
\<close>

theorem panStep_inverted_axis_counterexample:
  "panStep \<lparr>min_ext = 12, max_ext = 0, dataMin = 0, dataMax = 30\<rparr> 1 (Gran 3) = (8, - 4)
   \<and> snd (panStep \<lparr>min_ext = 12, max_ext = 0, dataMin = 0, dataMax = 30\<rparr> 1 (Gran 3))
       - fst (panStep \<lparr>min_ext = 12, max_ext = 0, dataMin = 0, dataMax = 30\<rparr> 1 (Gran 3)) < 0
   \<and> panStep \<lparr>min_ext = 12, max_ext = 0, dataMin = 0, dataMax = 30\<rparr> 1 (Gran 3) \<noteq> (12, 0)"
proof -
  have "panStep \<lparr>min_ext = 12, max_ext = 0, dataMin = 0, dataMax = 30\<rparr> 1 (Gran 3) = (8, - 4)"
    unfolding panStep_def panStepWith_def Let_def
    by (simp add: gran_def round64_small_integers round64_zero)
  then show ?thesis
    by simp
qed

text \<open>
  C6, amended. \<open>panStep\<close> has no check for an inverted axis and no fallback to a no-op. For
  every axis with \<open>min > max\<close>, every direction and every granularity, the extremes that
  \<open>panStep\<close> sets keep the signed window size \<open>max - min\<close>, which is negative: exactly in
  exact arithmetic, so that \<open>newMax < newMin\<close>, and within \<open>panRoundingError\<close> in the binary64
  arithmetic of the code, barring overflow (\<open>round64\<close> has no largest number). In exact
  arithmetic, for a direction other than \<open>0\<close> and a positive divisor, the extremes set differ
  from the extremes read.
\<close>

theorem panStep_inverted_axis:
  assumes inverted: "max_ext ex < min_ext ex"
  shows "snd (panStepExact ex d g) - fst (panStepExact ex d g) = max_ext ex - min_ext ex
       \<and> snd (panStepExact ex d g) < fst (panStepExact ex d g)
       \<and> (d \<noteq> 0 \<and> 0 < gran g \<longrightarrow> panStepExact ex d g \<noteq> (min_ext ex, max_ext ex))
       \<and> \<bar>(snd (panStep ex d g) - fst (panStep ex d g)) - (max_ext ex - min_ext ex)\<bar>
            \<le> panRoundingError ex d g"
proof -
  have size: "snd (panStepExact ex d g) - fst (panStepExact ex d g) = max_ext ex - min_ext ex"
    by (rule panStepExact_size)
  with inverted have order: "snd (panStepExact ex d g) < fst (panStepExact ex d g)"
    by simp
  have moved: "panStepExact ex d g \<noteq> (min_ext ex, max_ext ex)" if d: "d \<noteq> 0" and g: "0 < gran g"
  proof -
    have q: "(max_ext ex - min_ext ex) / gran g < 0"
      using inverted g by (simp add: divide_neg_pos)
    consider "d < 0" | "0 < d" using d by linarith
    then show ?thesis
    proof cases
      case 1
      have "0 < panStepDelta exact ex d g"
        unfolding panStepDelta_def exact_def using q 1 by (rule mult_neg_neg)
      with 1 show ?thesis
        by (auto simp: panStepExact_by_delta)
    next
      case 2
      have "panStepDelta exact ex d g < 0"
        unfolding panStepDelta_def exact_def using q 2 by (rule mult_neg_pos)
      with 2 show ?thesis
        by (auto simp: panStepExact_by_delta)
    qed
  qed
  from size order moved panStep_size_error [of ex d g] show ?thesis by blast
qed

theorem panStep_inverted_axis_witness:
  "max_ext \<lparr>min_ext = 12, max_ext = 0, dataMin = 0, dataMax = 30\<rparr>
     < min_ext \<lparr>min_ext = 12, max_ext = 0, dataMin = 0, dataMax = 30\<rparr>
   \<and> panStepExact \<lparr>min_ext = 12, max_ext = 0, dataMin = 0, dataMax = 30\<rparr> (- 1) Omitted = (16, 4)
   \<and> snd (panStepExact \<lparr>min_ext = 12, max_ext = 0, dataMin = 0, dataMax = 30\<rparr> (- 1) Omitted)
       - fst (panStepExact \<lparr>min_ext = 12, max_ext = 0, dataMin = 0, dataMax = 30\<rparr> (- 1) Omitted)
     = - 12
   \<and> snd (panStepExact \<lparr>min_ext = 12, max_ext = 0, dataMin = 0, dataMax = 30\<rparr> (- 1) Omitted)
       < fst (panStepExact \<lparr>min_ext = 12, max_ext = 0, dataMin = 0, dataMax = 30\<rparr> (- 1) Omitted)
   \<and> panStepExact \<lparr>min_ext = 12, max_ext = 0, dataMin = 0, dataMax = 30\<rparr> (- 1) Omitted \<noteq> (12, 0)"
  using panStep_inverted_axis
    [of "\<lparr>min_ext = 12, max_ext = 0, dataMin = 0, dataMax = 30\<rparr>" "- 1" Omitted]
  by (simp add: gran_def panStepExact_by_delta panStepDelta_def exact_def)

subsection \<open>A degenerate axis\<close>

text \<open>
  C8, as stated, fails on the code for a degenerate axis outside the data range: with
  \<open>min = max = 5\<close>, \<open>dataMin = 10\<close> and direction \<open>-1\<close> the step is \<open>0\<close>, the test
  \<open>newMin < dataMin\<close> holds, and \<open>panStep\<close> sets \<open>(10, 10)\<close>.
\<close>

theorem panStep_degenerate_counterexample:
  "max_ext \<lparr>min_ext = 5, max_ext = 5, dataMin = 10, dataMax = 20\<rparr>
     = min_ext \<lparr>min_ext = 5, max_ext = 5, dataMin = 10, dataMax = 20\<rparr>
   \<and> panStep \<lparr>min_ext = 5, max_ext = 5, dataMin = 10, dataMax = 20\<rparr> (- 1) (Gran 3) = (10, 10)
   \<and> panStep \<lparr>min_ext = 5, max_ext = 5, dataMin = 10, dataMax = 20\<rparr> (- 1) (Gran 3) \<noteq> (5, 5)"
proof -
  have "panStep \<lparr>min_ext = 5, max_ext = 5, dataMin = 10, dataMax = 20\<rparr> (- 1) (Gran 3) = (10, 10)"
    unfolding panStep_def panStepWith_def Let_def
    by (simp add: gran_def round64_small_integers round64_zero)
  then show ?thesis
    by simp
qed

text \<open>A degenerate axis under any rounding that keeps \<open>0\<close> and the extremes of the axis.\<close>

lemma panStepWith_degenerate:
  assumes degenerate: "max_ext ex = min_ext ex"
      and zero: "rnd 0 = 0"
      and kept: "rnd (min_ext ex) = min_ext ex" "rnd (dataMin ex) = dataMin ex"
        "rnd (dataMax ex) = dataMax ex"
  shows "panStepDelta rnd ex d g = 0"
    and "panStepWith rnd ex d g =
           (if d < 0 \<and> min_ext ex < dataMin ex then (dataMin ex, dataMin ex)
            else if d > 0 \<and> max_ext ex > dataMax ex then (dataMax ex, dataMax ex)
            else (min_ext ex, max_ext ex))"
  using assms by (simp_all add: panStepDelta_def panStepWith_def Let_def)

text \<open>
  C8, amended. For every axis with \<open>max = min\<close>, every direction and granularity, the step is
  \<open>0\<close>; \<open>panStep\<close> sets the extremes it read exactly when no clamping test holds, that is
  unless \<open>direction < 0\<close> and \<open>min < dataMin\<close>, or \<open>direction > 0\<close> and \<open>max > dataMax\<close>, where it
  sets both extremes to that data bound. In particular it is a no-op whenever
  \<open>dataMin \<le> min = max \<le> dataMax\<close>. \<open>panStep\<close> is a total function: no branch raises. (The
  extremes that \<open>getExtremes\<close> returns are binary64 numbers.)
\<close>

theorem panStep_degenerate_axis:
  assumes degenerate: "max_ext ex = min_ext ex"
      and numbers: "isBinary64 (min_ext ex)" "isBinary64 (dataMin ex)" "isBinary64 (dataMax ex)"
  shows "panStepDelta round64 ex d g = 0
       \<and> panStep ex d g =
           (if d < 0 \<and> min_ext ex < dataMin ex then (dataMin ex, dataMin ex)
            else if d > 0 \<and> max_ext ex > dataMax ex then (dataMax ex, dataMax ex)
            else (min_ext ex, max_ext ex))
       \<and> (panStep ex d g = (min_ext ex, max_ext ex) \<longleftrightarrow>
            \<not> (d < 0 \<and> min_ext ex < dataMin ex) \<and> \<not> (d > 0 \<and> max_ext ex > dataMax ex))"
proof -
  have kept: "round64 (min_ext ex) = min_ext ex" "round64 (dataMin ex) = dataMin ex"
    "round64 (dataMax ex) = dataMax ex"
    using numbers by (simp_all add: isBinary64_def)
  note facts = panStepWith_degenerate [OF degenerate round64_zero kept, of d g]
  have step: "panStepDelta round64 ex d g = 0"
    by (rule facts(1))
  have result: "panStep ex d g =
      (if d < 0 \<and> min_ext ex < dataMin ex then (dataMin ex, dataMin ex)
       else if d > 0 \<and> max_ext ex > dataMax ex then (dataMax ex, dataMax ex)
       else (min_ext ex, max_ext ex))"
    unfolding panStep_def by (rule facts(2))
  have "panStep ex d g = (min_ext ex, max_ext ex) \<longleftrightarrow>
      \<not> (d < 0 \<and> min_ext ex < dataMin ex) \<and> \<not> (d > 0 \<and> max_ext ex > dataMax ex)"
    unfolding result using degenerate by auto
  with step result show ?thesis
    by blast
qed

theorem panStep_degenerate_axis_witness:
  "max_ext \<lparr>min_ext = 5, max_ext = 5, dataMin = 0, dataMax = 10\<rparr>
     = min_ext \<lparr>min_ext = 5, max_ext = 5, dataMin = 0, dataMax = 10\<rparr>
   \<and> isBinary64 5 \<and> isBinary64 0 \<and> isBinary64 10
   \<and> panStepDelta round64 \<lparr>min_ext = 5, max_ext = 5, dataMin = 0, dataMax = 10\<rparr> (- 1) (Gran 3) = 0
   \<and> panStep \<lparr>min_ext = 5, max_ext = 5, dataMin = 0, dataMax = 10\<rparr> (- 1) (Gran 3) = (5, 5)"
proof -
  have numbers: "isBinary64 5" "isBinary64 0" "isBinary64 10"
    by (simp_all add: isBinary64_def round64_small_integers round64_zero)
  with panStep_degenerate_axis
    [of "\<lparr>min_ext = 5, max_ext = 5, dataMin = 0, dataMax = 10\<rparr>" "- 1" "Gran 3"]
  show ?thesis
    by simp
qed

subsection \<open>The default granularity\<close>

text \<open>
  C10. For every axis and direction, \<open>panStep\<close> with granularity \<open>0\<close>, with the granularity
  left out, or with a not-a-number granularity sets the same extremes as with granularity
  \<open>3\<close>: the falsy value is replaced by \<open>3\<close> before the division, and the divisor \<open>gran\<close> is
  never \<open>0\<close>. This holds whatever the rounding of the arithmetic.
\<close>

theorem panStep_falsy_granularity_is_default:
  "panStepWith rnd ex d (Gran 0) = panStepWith rnd ex d (Gran 3)
   \<and> panStepWith rnd ex d Omitted = panStepWith rnd ex d (Gran 3)
   \<and> panStepWith rnd ex d GNaN = panStepWith rnd ex d (Gran 3)
   \<and> panStep ex d (Gran 0) = panStep ex d (Gran 3)
   \<and> panStep ex d Omitted = panStep ex d (Gran 3)
   \<and> panStep ex d GNaN = panStep ex d (Gran 3)
   \<and> gran (Gran 0) = 3 \<and> gran Omitted = 3 \<and> gran GNaN = 3
   \<and> gran g \<noteq> 0"
  using gran_nonzero [of g] by (simp add: panStep_def panStepWith_def gran_falsy)

theorem panStep_falsy_granularity_is_default_witness:
  "panStep \<lparr>min_ext = 1, max_ext = 2, dataMin = 0, dataMax = 10\<rparr> 1 (Gran 3)
     = (6004799503160661 / 4503599627370496, 5254199565265579 / 2251799813685248)
   \<and> panStep \<lparr>min_ext = 1, max_ext = 2, dataMin = 0, dataMax = 10\<rparr> 1 (Gran 0)
     = (6004799503160661 / 4503599627370496, 5254199565265579 / 2251799813685248)
   \<and> panStep \<lparr>min_ext = 1, max_ext = 2, dataMin = 0, dataMax = 10\<rparr> 1 Omitted
     = (6004799503160661 / 4503599627370496, 5254199565265579 / 2251799813685248)
   \<and> panStep \<lparr>min_ext = 1, max_ext = 2, dataMin = 0, dataMax = 10\<rparr> 1 GNaN
     = (6004799503160661 / 4503599627370496, 5254199565265579 / 2251799813685248)"
proof -
  have "panStep \<lparr>min_ext = 1, max_ext = 2, dataMin = 0, dataMax = 10\<rparr> 1 (Gran 3)
      = (6004799503160661 / 4503599627370496, 5254199565265579 / 2251799813685248)"
    unfolding panStep_def panStepWith_def Let_def
    by (simp add: gran_def round64_small_integers round64_third)
  with panStep_falsy_granularity_is_default
    [of round64 "\<lparr>min_ext = 1, max_ext = 2, dataMin = 0, dataMax = 10\<rparr>" 1 Omitted]
  show ?thesis
    by simp
qed

section \<open>Properties of the zoom component\<close>

subsection \<open>The \<open>validate\<close> callback of the map zoom handler\<close>

text \<open>
  C4. \<open>validate\<close> of the map zoom handler returns a truthy value exactly when the chart has
  the method \<open>mapZoom\<close> and \<open>mapNavButtons\<close> is there and is not empty; in every other state
  of the chart the value it returns is falsy. (The callback returns an operand of
  \<^verbatim>\<open>&&\<close>: \<^verbatim>\<open>undefined\<close> or the number of buttons; \<open>true\<close> and \<open>false\<close> are read as truthy and
  falsy.)
\<close>

theorem mapZoomValidate_truthy_iff:
  "truthy (mapZoomValidate this) \<longleftrightarrow>
     mapZoom (chart this) \<and>
     (\<exists>buttons. mapNavButtons (chart this) = Some buttons \<and> buttons \<noteq> [])"
  by (simp add: mapZoomValidate_def chartHasMapZoom_def split: option.split)

theorem mapZoomValidate_truthy_iff_witness:
  "mapZoomValidate sampleComponent = Number 2
   \<and> truthy (mapZoomValidate sampleComponent)
   \<and> \<not> truthy (mapZoomValidate (sampleComponent\<lparr>chart := sampleChart\<lparr>mapNavButtons := Some []\<rparr>\<rparr>))
   \<and> \<not> truthy (mapZoomValidate (sampleComponent\<lparr>chart := sampleChart\<lparr>mapNavButtons := None\<rparr>\<rparr>))
   \<and> \<not> truthy (mapZoomValidate (sampleComponent\<lparr>chart := sampleChart\<lparr>mapZoom := False\<rparr>\<rparr>))"
proof -
  have "mapZoomValidate sampleComponent = Number 2"
    by (simp add: mapZoomValidate_def chartHasMapZoom_def sampleComponent_def sampleChart_def)
  then show ?thesis
    using mapZoomValidate_truthy_iff [of sampleComponent]
      mapZoomValidate_truthy_iff [of "sampleComponent\<lparr>chart := sampleChart\<lparr>mapNavButtons := Some []\<rparr>\<rparr>"]
      mapZoomValidate_truthy_iff [of "sampleComponent\<lparr>chart := sampleChart\<lparr>mapNavButtons := None\<rparr>\<rparr>"]
      mapZoomValidate_truthy_iff [of "sampleComponent\<lparr>chart := sampleChart\<lparr>mapZoom := False\<rparr>\<rparr>"]
    by simp
qed

text \<open>
  The \<open>validate\<close> callback of the drill-up handler is falsy for a chart without a drill-up
  button, whatever proxy the component still refers to.
\<close>

lemma drillUp_validate_without_button:
  "drillUpButton (chart this) = None \<Longrightarrow>
     \<not> truthy (simpleButtonValidate ''drillUpButton'' ''drillUpProxyButton'' this)"
  by (simp add: simpleButtonValidate_def chartButton_def)

subsection \<open>Rebuilding the proxy overlays\<close>







subsection \<open>Event subscriptions\<close>

lemma eventListeners_init:
  "eventListeners (init this) =
     eventListeners this @
     [(''afterShowResetZoom'', CallUpdateProxyOverlays),
      (''afterDrilldown'', CallUpdateProxyOverlays),
      (''drillupall'', CallUpdateProxyOverlays)]"
  by (simp add: init_def addEvent_def)

text \<open>
  C9, as stated, fails on the code: \<open>init\<close> does not subscribe to a redraw event of the chart
  (\<open>redraw\<close> or \<open>render\<close>). It subscribes to \<open>afterShowResetZoom\<close>, \<open>afterDrilldown\<close> and
  \<open>drillupall\<close>, and firing \<open>redraw\<close> after \<open>init\<close> runs no listener of the component.
\<close>

theorem init_subscriptions_counterexample:
  "map fst (eventListeners (init sampleComponent)) =
     [''afterShowResetZoom'', ''afterDrilldown'', ''drillupall'']
   \<and> ''redraw'' \<notin> set (map fst (eventListeners (init sampleComponent)))
   \<and> ''render'' \<notin> set (map fst (eventListeners (init sampleComponent)))
   \<and> effects (fireEvent ''redraw'' (init sampleComponent)) = []
   \<and> effects (fireEvent ''render'' (init sampleComponent)) = []"
  by (simp add: eventListeners_init fireEvent_def) (simp add: sampleComponent_def init_def addEvent_def)

text \<open>
  C9, amended. On initialization the component subscribes to exactly the chart events
  \<open>afterShowResetZoom\<close>, \<open>afterDrilldown\<close> and \<open>drillupall\<close>, in that order, and touches nothing
  else; each of these subscriptions runs \<open>updateProxyOverlays\<close>, so that on a component with
  no earlier listeners firing one of the three events is one \<open>updateProxyOverlays\<close> and
  firing any other event does nothing. The rebuild on a render of the chart is the hook
  \<open>onChartRender\<close>, which is \<open>updateProxyOverlays\<close>, not a subscription made by \<open>init\<close>.
\<close>

theorem init_subscriptions:
  assumes fresh: "eventListeners this = []"
  shows "map fst (eventListeners (init this)) =
           [''afterShowResetZoom'', ''afterDrilldown'', ''drillupall'']
       \<and> set (map snd (eventListeners (init this))) = {CallUpdateProxyOverlays}
       \<and> runHandler CallUpdateProxyOverlays = updateProxyOverlays
       \<and> init this = this\<lparr>eventListeners := eventListeners (init this)\<rparr>
       \<and> fireEvent eventType (init this) =
           (if eventType \<in> {''afterShowResetZoom'', ''afterDrilldown'', ''drillupall''}
            then updateProxyOverlays (init this) else init this)
       \<and> onChartRender = updateProxyOverlays"
proof -
  have listeners: "eventListeners (init this) =
      [(''afterShowResetZoom'', CallUpdateProxyOverlays),
       (''afterDrilldown'', CallUpdateProxyOverlays),
       (''drillupall'', CallUpdateProxyOverlays)]"
    using fresh by (simp add: eventListeners_init)
  have run: "runHandler CallUpdateProxyOverlays = updateProxyOverlays"
    by (rule ext) simp
  have frame: "init this = this\<lparr>eventListeners := eventListeners (init this)\<rparr>"
    by (simp add: init_def addEvent_def)
  have fire: "fireEvent eventType (init this) =
      (if eventType \<in> {''afterShowResetZoom'', ''afterDrilldown'', ''drillupall''}
       then updateProxyOverlays (init this) else init this)"
    unfolding fireEvent_def listeners by auto
  have render: "onChartRender = updateProxyOverlays"
    by (rule ext) (simp add: onChartRender_def)
  from listeners run frame fire render show ?thesis
    by simp
qed

theorem init_subscriptions_witness:
  "eventListeners sampleComponent = []
   \<and> map fst (eventListeners (init sampleComponent)) =
       [''afterShowResetZoom'', ''afterDrilldown'', ''drillupall'']
   \<and> fireEvent ''drillupall'' (init sampleComponent) = updateProxyOverlays (init sampleComponent)
   \<and> fireEvent ''redraw'' (init sampleComponent) = init sampleComponent"
proof -
  have fresh: "eventListeners sampleComponent = []"
    by (simp add: sampleComponent_def)
  show ?thesis
    using fresh init_subscriptions [OF fresh, of "''drillupall''"]
      init_subscriptions [OF fresh, of "''redraw''"]
    by simp
qed

subsection \<open>Arrow keys\<close>

text \<open>
  C7. For a press of an arrow key on a chart that has a first x-axis and a first y-axis: up
  and down pan \<open>chart.yAxis[0]\<close>, left and right pan \<open>chart.xAxis[0]\<close>; up and left pan with
  direction \<open>-1\<close>, down and right with direction \<open>1\<close>; the pan is one call of \<open>panStep\<close>
  without a granularity, which is the default granularity \<open>3\<close>, and ends in one
  \<open>setExtremes\<close> on that axis; the response is \<open>success\<close>.
\<close>

theorem onMapKbdArrow_pans_first_axis:
  assumes codes: "distinct [up keys, down keys, left keys, right keys]"
      and arrow: "keyCode \<in> {up keys, down keys, left keys, right keys}"
      and x: "xAxis (chart this) = ax # xs"
      and y: "yAxis (chart this) = ay # ys"
  shows "onMapKbdArrow keys keyCode this =
           Inr (Success,
                axisPanStep
                  (if keyCode \<in> {up keys, down keys} then ''yAxis'' else ''xAxis'') 0
                  (if keyCode \<in> {up keys, down keys} then ay else ax)
                  (if keyCode \<in> {up keys, left keys} then - 1 else 1)
                  Omitted this)
       \<and> axisPanStep panAxis i axis direction Omitted this =
           this\<lparr>effects := effects this @
                   [SetExtremes panAxis i (fst (panStep axis direction (Gran 3)))
                                          (snd (panStep axis direction (Gran 3)))]\<rparr>"
proof -
  have call: "onMapKbdArrow keys keyCode this =
      Inr (Success,
           axisPanStep
             (if keyCode \<in> {up keys, down keys} then ''yAxis'' else ''xAxis'') 0
             (if keyCode \<in> {up keys, down keys} then ay else ax)
             (if keyCode \<in> {up keys, left keys} then - 1 else 1)
             Omitted this)"
    using codes arrow x y
    by (auto simp: onMapKbdArrow_def chartAxes_def at_index_def Let_def)
  have default: "panStep axis direction Omitted = panStep axis direction (Gran 3)"
    by (simp add: panStep_def panStepWith_def gran_def)
  have pan: "axisPanStep panAxis i axis direction Omitted this =
      this\<lparr>effects := effects this @
              [SetExtremes panAxis i (fst (panStep axis direction (Gran 3)))
                                     (snd (panStep axis direction (Gran 3)))]\<rparr>"
    by (simp add: axisPanStep_def default split_beta)
  from call pan show ?thesis ..
qed

theorem onMapKbdArrow_pans_first_axis_witness:
  "distinct [up sampleKeys, down sampleKeys, left sampleKeys, right sampleKeys]
   \<and> xAxis (chart sampleComponent) = [\<lparr>min_ext = 0, max_ext = 10, dataMin = 0, dataMax = 30\<rparr>]
   \<and> yAxis (chart sampleComponent) = [\<lparr>min_ext = 25, max_ext = 30, dataMin = 0, dataMax = 30\<rparr>]
   \<and> onMapKbdArrow sampleKeys 38 sampleComponent =
       Inr (Success, sampleComponent\<lparr>effects :=
         [SetExtremes ''yAxis'' 0
            (fst (panStep \<lparr>min_ext = 25, max_ext = 30, dataMin = 0, dataMax = 30\<rparr> (- 1) (Gran 3)))
            (snd (panStep \<lparr>min_ext = 25, max_ext = 30, dataMin = 0, dataMax = 30\<rparr> (- 1) (Gran 3)))]\<rparr>)
   \<and> onMapKbdArrow sampleKeys 40 sampleComponent =
       Inr (Success, sampleComponent\<lparr>effects :=
         [SetExtremes ''yAxis'' 0
            (fst (panStep \<lparr>min_ext = 25, max_ext = 30, dataMin = 0, dataMax = 30\<rparr> 1 (Gran 3)))
            (snd (panStep \<lparr>min_ext = 25, max_ext = 30, dataMin = 0, dataMax = 30\<rparr> 1 (Gran 3)))]\<rparr>)
   \<and> onMapKbdArrow sampleKeys 37 sampleComponent =
       Inr (Success, sampleComponent\<lparr>effects :=
         [SetExtremes ''xAxis'' 0
            (fst (panStep \<lparr>min_ext = 0, max_ext = 10, dataMin = 0, dataMax = 30\<rparr> (- 1) (Gran 3)))
            (snd (panStep \<lparr>min_ext = 0, max_ext = 10, dataMin = 0, dataMax = 30\<rparr> (- 1) (Gran 3)))]\<rparr>)
   \<and> onMapKbdArrow sampleKeys 39 sampleComponent =
       Inr (Success, sampleComponent\<lparr>effects :=
         [SetExtremes ''xAxis'' 0
            (fst (panStep \<lparr>min_ext = 0, max_ext = 10, dataMin = 0, dataMax = 30\<rparr> 1 (Gran 3)))
            (snd (panStep \<lparr>min_ext = 0, max_ext = 10, dataMin = 0, dataMax = 30\<rparr> 1 (Gran 3)))]\<rparr>)"
proof -
  let ?x = "\<lparr>min_ext = 0, max_ext = 10, dataMin = 0, dataMax = 30\<rparr>"
  let ?y = "\<lparr>min_ext = 25, max_ext = 30, dataMin = 0, dataMax = 30\<rparr>"
  have codes: "distinct [up sampleKeys, down sampleKeys, left sampleKeys, right sampleKeys]"
    by (simp add: sampleKeys_def)
  have x: "xAxis (chart sampleComponent) = ?x # []"
    and y: "yAxis (chart sampleComponent) = ?y # []"
    and log: "effects sampleComponent = []"
    by (simp_all add: sampleComponent_def sampleChart_def)
  have keys: "up sampleKeys = 38" "down sampleKeys = 40" "left sampleKeys = 37"
    "right sampleKeys = 39"
    by (simp_all add: sampleKeys_def)
  note spec = onMapKbdArrow_pans_first_axis [OF codes _ x y]
  have "onMapKbdArrow sampleKeys 38 sampleComponent =
      Inr (Success, sampleComponent\<lparr>effects :=
        [SetExtremes ''yAxis'' 0 (fst (panStep ?y (- 1) (Gran 3)))
           (snd (panStep ?y (- 1) (Gran 3)))]\<rparr>)"
    using spec [of 38 "''yAxis''" 0 ?y "- 1"] by (simp add: keys log)
  moreover have "onMapKbdArrow sampleKeys 40 sampleComponent =
      Inr (Success, sampleComponent\<lparr>effects :=
        [SetExtremes ''yAxis'' 0 (fst (panStep ?y 1 (Gran 3))) (snd (panStep ?y 1 (Gran 3)))]\<rparr>)"
    using spec [of 40 "''yAxis''" 0 ?y 1] by (simp add: keys log)
  moreover have "onMapKbdArrow sampleKeys 37 sampleComponent =
      Inr (Success, sampleComponent\<lparr>effects :=
        [SetExtremes ''xAxis'' 0 (fst (panStep ?x (- 1) (Gran 3)))
           (snd (panStep ?x (- 1) (Gran 3)))]\<rparr>)"
    using spec [of 37 "''xAxis''" 0 ?x "- 1"] by (simp add: keys log)
  moreover have "onMapKbdArrow sampleKeys 39 sampleComponent =
      Inr (Success, sampleComponent\<lparr>effects :=
        [SetExtremes ''xAxis'' 0 (fst (panStep ?x 1 (Gran 3))) (snd (panStep ?x 1 (Gran 3)))]\<rparr>)"
    using spec [of 39 "''xAxis''" 0 ?x 1] by (simp add: keys log)
  ultimately show ?thesis
    using codes x y by simp
qed

subsection \<open>The tab key\<close>

lemma filter_upt_singleD:
  assumes "filter P [0..<n] = [i]" and "k < n"
  shows "P k \<longleftrightarrow> k = i"
proof -
  have "set (filter P [0..<n]) = {i}"
    using assms(1) by simp
  then have "{k. k < n \<and> P k} = {i}"
    by auto
  with assms(2) show ?thesis
    by auto
qed

lemma filter_upt_eq: "j < n \<Longrightarrow> filter (\<lambda>k. k = j) [0..<n] = [j]"
  by (induction n) (auto simp: less_Suc_eq filter_empty_conv)

lemma filter_upt_single:
  assumes "j < n" and "\<And>k. k < n \<Longrightarrow> P k \<longleftrightarrow> k = j"
  shows "filter P [0..<n] = [j]"
proof -
  have "filter P [0..<n] = filter (\<lambda>k. k = j) [0..<n]"
    using assms(2) by (intro filter_cong) auto
  with assms(1) show ?thesis
    by (simp add: filter_upt_eq)
qed

lemma setState_simps:
  "effects (setState i s this) = effects this @ [SetState i s]"
  "focusedMapNavButtonIx (setState i s this) = focusedMapNavButtonIx this"
  "mapZoom (chart (setState i s this)) = mapZoom (chart this)"
  "mapNavButtons (chart (setState i s this)) =
     map_option (\<lambda>buttons. buttons[i := (buttons ! i)\<lparr>state := s\<rparr>]) (mapNavButtons (chart this))"
  by (simp_all add: setState_def)

lemma setFocusToElement_simps:
  "effects (setFocusToElement b el this) = effects this @ [SetFocusToElement b el]"
  "focusedMapNavButtonIx (setFocusToElement b el this) = focusedMapNavButtonIx this"
  "chart (setFocusToElement b el this) = chart this"
  by (simp_all add: setFocusToElement_def)

text \<open>The selected buttons after one \<open>setState\<close> on an existing button.\<close>

lemma selectedButtons_setState:
  assumes "mapNavButtons (chart this) = Some buttons" and "i < length buttons"
  shows "selectedButtons (setState i s this) =
           filter (\<lambda>k. (if k = i then s else state (buttons ! k)) = 2) [0..<length buttons]"
  using assms
  by (auto simp: selectedButtons_def setState_simps nth_list_update intro!: filter_cong)

text \<open>
  C3. On a tab key press while the map zoom handler is active, the focused button is first
  deselected (\<open>setState(0)\<close>). With shift at button \<open>0\<close>, or without shift at button \<open>1\<close>, the
  map zoom is then reset (\<open>chart.mapZoom()\<close>), the response is \<open>prev\<close> respectively \<open>next\<close>, and
  no button is left selected. Otherwise the index moves by \<open>-1\<close> with shift and by \<open>1\<close>
  without, the button at the new index is focused and then selected (\<open>setState(2)\<close>), it is
  the only selected button, and the response is \<open>success\<close>.
\<close>

theorem onMapKbdTab_active:
  assumes active: "mapZoomActive this"
      and buttons: "mapNavButtons (chart this) = Some buttons"
      and focused: "focusedMapNavButtonIx this = Some i"
  shows "case onMapKbdTab shiftKey this of
           Inl err \<Rightarrow> False
         | Inr (response, this') \<Rightarrow>
             (if (shiftKey \<and> i = 0) \<or> (\<not> shiftKey \<and> i = 1)
              then response = (if shiftKey then Prev else Next)
                 \<and> effects this' = effects this @ [SetState i 0, MapZoom]
                 \<and> selectedButtons this' = []
              else response = Success
                 \<and> focusedMapNavButtonIx this' = Some (if shiftKey then i - 1 else i + 1)
                 \<and> effects this' =
                     effects this @
                     [SetState i 0,
                      SetFocusToElement (box (buttons ! (if shiftKey then i - 1 else i + 1)))
                        (element (buttons ! (if shiftKey then i - 1 else i + 1))),
                      SetState (if shiftKey then i - 1 else i + 1) 2]
                 \<and> selectedButtons this' = [if shiftKey then i - 1 else i + 1]
                 \<and> mapZoomActive this')"
proof -
  from active buttons focused
  have zoom: "mapZoom (chart this)" and len: "2 \<le> length buttons" and i: "i < 2"
    and sel: "selectedButtons this = [i]"
    by (auto simp: mapZoomActive_def mapZoomValidate_def chartHasMapZoom_def split: if_splits)
  from sel buttons have only: "state (buttons ! k) = 2 \<longleftrightarrow> k = i" if "k < length buttons" for k
    using that filter_upt_singleD [of "\<lambda>k. state (buttons ! k) = 2" "length buttons" i k]
    by (simp add: selectedButtons_def)
  have old: "mapNavButton (chart this) (Some i) = Some (buttons ! i)"
    using buttons len i by (simp add: mapNavButton_def at_index_def)
  let ?this1 = "setState i 0 this"
  have deselected: "selectedButtons ?this1 = []"
    using len i only
    by (simp add: selectedButtons_setState [OF buttons] filter_empty_conv)
  show ?thesis
  proof (cases "(shiftKey \<and> i = 0) \<or> (\<not> shiftKey \<and> i = 1)")
    case exit: True
    then have "onMapKbdTab shiftKey this =
        Inr (if shiftKey then Prev else Next, ?this1\<lparr>effects := effects ?this1 @ [MapZoom]\<rparr>)"
      using old focused zoom by (auto simp: onMapKbdTab_def Let_def setState_simps)
    moreover have "selectedButtons (?this1\<lparr>effects := effects ?this1 @ [MapZoom]\<rparr>) = []"
      using deselected by (simp add: selectedButtons_def)
    ultimately show ?thesis
      using exit by (simp add: setState_simps)
  next
    case move: False
    define j where "j = (if shiftKey then i - 1 else i + 1)"
    from move i have j: "j < 2" "j \<noteq> i"
      by (auto simp: j_def)
    let ?buttons1 = "buttons[i := (buttons ! i)\<lparr>state := 0\<rparr>]"
    let ?this2 = "?this1\<lparr>focusedMapNavButtonIx := Some j\<rparr>"
    let ?b = "?buttons1 ! j"
    let ?this' = "setState j 2 (setFocusToElement (box ?b) (element ?b) ?this2)"
    have buttons1: "mapNavButtons (chart ?this2) = Some ?buttons1"
      using buttons by (simp add: setState_simps)
    have b: "?b = buttons ! j"
      using j by simp
    have new: "mapNavButton (chart ?this2) (Some j) = Some ?b"
      using buttons1 len j by (simp add: mapNavButton_def at_index_def)
    have result: "onMapKbdTab shiftKey this = Inr (Success, ?this')"
      using move old focused new i unfolding j_def
      by (auto simp: onMapKbdTab_def Let_def)
    have buttons2: "mapNavButtons (chart (setFocusToElement (box ?b) (element ?b) ?this2))
        = Some ?buttons1"
      using buttons1 by (simp add: setFocusToElement_simps)
    have "selectedButtons ?this' =
        filter (\<lambda>k. (if k = j then 2 else state (?buttons1 ! k)) = 2) [0..<length ?buttons1]"
      using len j by (intro selectedButtons_setState [OF buttons2]) simp
    also have "\<dots> = [j]"
      using len i j only by (intro filter_upt_single) (auto simp: nth_list_update)
    finally have selected: "selectedButtons ?this' = [j]" .
    have log: "effects ?this' =
        effects this @ [SetState i 0, SetFocusToElement (box (buttons ! j)) (element (buttons ! j)),
                        SetState j 2]"
      unfolding b by (simp add: setState_simps setFocusToElement_simps)
    have ix: "focusedMapNavButtonIx ?this' = Some j"
      by (simp add: setState_simps setFocusToElement_simps)
    have buttons3: "mapNavButtons (chart ?this') = Some (?buttons1[j := ?b\<lparr>state := 2\<rparr>])"
      using buttons2 by (simp add: setState_simps)
    have zoom': "mapZoom (chart ?this')"
      using zoom by (simp add: setState_simps setFocusToElement_simps)
    have active': "mapZoomActive ?this'"
      unfolding mapZoomActive_def mapZoomValidate_def chartHasMapZoom_def
      using zoom' len j selected ix buttons3 by auto
    from result log ix selected active' move show ?thesis
      unfolding j_def by simp
  qed
qed

theorem onMapKbdTab_active_witness:
  "mapZoomActive focusedComponent
   \<and> focusedMapNavButtonIx focusedComponent = Some 0
   \<and> (case onMapKbdTab True focusedComponent of
         Inl err \<Rightarrow> False
       | Inr (response, this') \<Rightarrow>
           response = Prev
           \<and> effects this' =
               [SetFocusToElement (Some 10) 11, SetState 0 2, SetState 0 0, MapZoom]
           \<and> selectedButtons this' = [])
   \<and> (case onMapKbdTab False focusedComponent of
         Inl err \<Rightarrow> False
       | Inr (response, this') \<Rightarrow>
           response = Success
           \<and> focusedMapNavButtonIx this' = Some 1
           \<and> effects this' =
               [SetFocusToElement (Some 10) 11, SetState 0 2, SetState 0 0,
                SetFocusToElement (Some 20) 21, SetState 1 2]
           \<and> selectedButtons this' = [1])"
proof -
  let ?buttons = "[\<lparr>box = Some 10, element = 11, state = 2\<rparr>,
                   \<lparr>box = Some 20, element = 21, state = 0\<rparr>]"
  have active: "mapZoomActive focusedComponent"
    by (simp add: mapZoomActive_def focusedComponent_def sampleChart_def mapZoomValidate_def
        chartHasMapZoom_def selectedButtons_def)
  have buttons: "mapNavButtons (chart focusedComponent) = Some ?buttons"
    and focused: "focusedMapNavButtonIx focusedComponent = Some 0"
    and log: "effects focusedComponent = [SetFocusToElement (Some 10) 11, SetState 0 2]"
    by (simp_all add: focusedComponent_def sampleChart_def)
  have backward: "case onMapKbdTab True focusedComponent of
         Inl err \<Rightarrow> False
       | Inr (response, this') \<Rightarrow>
           response = Prev
           \<and> effects this' =
               [SetFocusToElement (Some 10) 11, SetState 0 2, SetState 0 0, MapZoom]
           \<and> selectedButtons this' = []"
    using onMapKbdTab_active [OF active buttons focused, of True]
    by (simp add: log split: sum.splits prod.splits)
  have forward: "case onMapKbdTab False focusedComponent of
         Inl err \<Rightarrow> False
       | Inr (response, this') \<Rightarrow>
           response = Success
           \<and> focusedMapNavButtonIx this' = Some 1
           \<and> effects this' =
               [SetFocusToElement (Some 10) 11, SetState 0 2, SetState 0 0,
                SetFocusToElement (Some 20) 21, SetState 1 2]
           \<and> selectedButtons this' = [1]"
    using onMapKbdTab_active [OF active buttons focused, of False]
    by (simp add: log split: sum.splits prod.splits)
  from active focused backward forward show ?thesis
    by simp
qed

text \<open>
  The hypothesis of C3 is what \<open>onMapNavInit\<close> establishes on a chart with map zoom and two
  map navigation buttons, none of them selected.
\<close>

lemma onMapNavInit_activates:
  assumes "truthy (mapZoomValidate this)"
      and buttons: "mapNavButtons (chart this) = Some buttons"
      and len: "2 \<le> length buttons"
      and none: "selectedButtons this = []"
  shows "case onMapNavInit direction this of
           Inl err \<Rightarrow> False
         | Inr this' \<Rightarrow>
             focusedMapNavButtonIx this' = Some (if direction > 0 then 0 else 1)
             \<and> mapZoomActive this'"
proof -
  define j :: nat where "j = (if direction > 0 then 0 else 1)"
  have j: "j < 2" "j < length buttons"
    using len by (auto simp: j_def)
  let ?b = "buttons ! j"
  let ?focus = "setFocusToElement (box ?b) (element ?b) this"
  let ?this' = "(setState j 2 ?focus)\<lparr>focusedMapNavButtonIx := Some j\<rparr>"
  have result: "onMapNavInit direction this = Inr ?this'"
    using buttons len by (auto simp: onMapNavInit_def at_index_def Let_def j_def)
  have buttons': "mapNavButtons (chart ?focus) = Some buttons"
    using buttons by (simp add: setFocusToElement_simps)
  from none buttons have unselected: "state (buttons ! k) \<noteq> 2" if "k < length buttons" for k
    using that by (auto simp: selectedButtons_def filter_empty_conv)
  have "selectedButtons (setState j 2 ?focus) =
      filter (\<lambda>k. (if k = j then 2 else state (buttons ! k)) = 2) [0..<length buttons]"
    using j by (intro selectedButtons_setState [OF buttons'])
  also have "\<dots> = [j]"
    using j unselected by (intro filter_upt_single) auto
  finally have "selectedButtons ?this' = [j]"
    by (simp add: selectedButtons_def)
  moreover have "mapNavButtons (chart ?this') = Some (buttons[j := ?b\<lparr>state := 2\<rparr>])"
    using buttons' by (simp add: setState_simps)
  moreover have "mapZoom (chart ?this')"
    using assms(1) by (simp add: mapZoomValidate_def chartHasMapZoom_def setState_simps
        setFocusToElement_simps split: if_splits)
  ultimately have "mapZoomActive ?this'"
    unfolding mapZoomActive_def mapZoomValidate_def chartHasMapZoom_def
    using len j by auto
  with result show ?thesis
    by (simp add: j_def)
qed

end
